theory Spec2Isabelle
  imports Main "HOL-Library.Word" "HOL-Library.Multiset" "HOL-Library.Code_Target_Numeral"
begin

unbundle bit_operations_syntax

section \<open>JavaScript values and text\<close>

text \<open>
  The values that flow through \<^verbatim>\<open>index.mjs\<close>: strings (command-line values, CSV
  fields, the session key), numbers (the timestamp, an integer), booleans (flags) and
  \<^verbatim>\<open>undefined\<close> (an absent property). A JavaScript string is modelled as a
  \<open>string\<close>.
\<close>

datatype jsval = JUndefined | JString string | JNumber int | JBoolean bool

text \<open>Truthiness, as \<^verbatim>\<open>!x\<close>, \<^verbatim>\<open>x || y\<close> and \<^verbatim>\<open>if (x)\<close> read it.\<close>

fun truthy :: "jsval \<Rightarrow> bool" where
  "truthy JUndefined = False"
| "truthy (JString s) = (s \<noteq> [])"
| "truthy (JNumber n) = (n \<noteq> 0)"
| "truthy (JBoolean b) = b"

text \<open>\<^verbatim>\<open>a || b\<close>: the left operand when it is truthy, the right one otherwise.\<close>

definition js_or :: "jsval \<Rightarrow> jsval \<Rightarrow> jsval" where
  "js_or a b = (if truthy a then a else b)"

text \<open>Decimal rendering of an integer, as a template literal or \<^verbatim>\<open>join\<close> renders a number.\<close>

fun digits10 :: "nat \<Rightarrow> string" where
  "digits10 n =
     (if n < 10 then [''0123456789'' ! n]
      else digits10 (n div 10) @ [''0123456789'' ! (n mod 10)])"

declare digits10.simps [simp del]

definition Number_toString :: "int \<Rightarrow> string" where
  "Number_toString i = (if i < 0 then ''-'' @ digits10 (nat (- i)) else digits10 (nat i))"

text \<open>\<^verbatim>\<open>String(v)\<close>, the conversion of template literals and of \<^verbatim>\<open>URLSearchParams\<close>.\<close>

fun ToString :: "jsval \<Rightarrow> string" where
  "ToString JUndefined = ''undefined''"
| "ToString (JString s) = s"
| "ToString (JNumber n) = Number_toString n"
| "ToString (JBoolean b) = (if b then ''true'' else ''false'')"

text \<open>
  \<^verbatim>\<open>Array.prototype.join\<close> renders \<^verbatim>\<open>undefined\<close> as the empty string and every
  other element by \<^verbatim>\<open>String\<close>; \<^verbatim>\<open>join('')\<close> puts nothing between the elements.
\<close>

fun join_element :: "jsval \<Rightarrow> string" where
  "join_element JUndefined = []"
| "join_element v = ToString v"

fun join_strings :: "string \<Rightarrow> string list \<Rightarrow> string" where
  "join_strings sep [] = []"
| "join_strings sep [x] = x"
| "join_strings sep (x # y # ys) = x @ sep @ join_strings sep (y # ys)"

definition Array_join :: "jsval list \<Rightarrow> string \<Rightarrow> string" where
  "Array_join xs sep = join_strings sep (map join_element xs)"

section \<open>The platform\<close>

text \<open>
  Two functions of the JavaScript platform are used by the signature engine and are not
  part of the repository: the collation \<^verbatim>\<open>String.prototype.localeCompare\<close> (negative,
  zero or positive) and the MD5 digest of \<^verbatim>\<open>node:crypto\<close>, whose 16 bytes are read
  here as one 128-bit number, first byte most significant. Both are parameters.
\<close>

record platform =
  localeCompare :: "string \<Rightarrow> string \<Rightarrow> int"
  createHash_md5 :: "string \<Rightarrow> 128 word"

text \<open>
  \<^verbatim>\<open>digest("hex")\<close>: two lowercase hexadecimal digits per byte, 32 digits for the
  16 bytes, the most significant nibble first.
\<close>

definition hex_digit :: "nat \<Rightarrow> char" where
  "hex_digit n = ''0123456789abcdef'' ! (n mod 16)"

definition digest_hex :: "128 word \<Rightarrow> string" where
  "digest_hex w = map (\<lambda>i. hex_digit (unat (drop_bit (4 * (31 - i)) w AND 15))) [0..<32]"

text \<open>\<^verbatim>\<open>md5(str) = crypto.createHash("md5").update(str).digest("hex")\<close>\<close>

definition md5 :: "platform \<Rightarrow> string \<Rightarrow> string" where
  "md5 pf str = digest_hex (createHash_md5 pf str)"

section \<open>Signature engine\<close>

text \<open>
  A parameter object is the list of its own properties in enumeration order, every key
  occurring once. \<^verbatim>\<open>Object.entries\<close> yields that list.
\<close>

type_synonym jsobject = "(string \<times> jsval) list"

definition Object_entries :: "jsobject \<Rightarrow> (string \<times> jsval) list" where
  "Object_entries obj = obj"

text \<open>
  \<^verbatim>\<open>Array.prototype.sort(comparefn)\<close> is a stable sort: for a consistent comparator
  every stable sort gives the same array, so the insertion sort below stands for it.
  An element is placed in front of the first element it does not compare greater than.
\<close>

fun sort_insert :: "('a \<Rightarrow> 'a \<Rightarrow> int) \<Rightarrow> 'a \<Rightarrow> 'a list \<Rightarrow> 'a list" where
  "sort_insert cmp x [] = [x]"
| "sort_insert cmp x (y # ys) =
     (if cmp x y \<le> 0 then x # y # ys else y # sort_insert cmp x ys)"

definition Array_sort :: "('a \<Rightarrow> 'a \<Rightarrow> int) \<Rightarrow> 'a list \<Rightarrow> 'a list" where
  "Array_sort cmp xs = foldr (sort_insert cmp) xs []"

text \<open>
  \<^verbatim>\<open>.flat()\<close> on an array of \<^verbatim>\<open>[key, value]\<close> pairs: the keys and values in one
  array (no value is itself an array here).
\<close>

definition flat :: "(string \<times> jsval) list \<Rightarrow> jsval list" where
  "flat entries = concat (map (\<lambda>(k, v). [JString k, v]) entries)"

text \<open>The comparator of \<^verbatim>\<open>createSignature\<close>: \<^verbatim>\<open>([a], [b]) => a.localeCompare(b)\<close>.\<close>

definition by_key :: "platform \<Rightarrow> string \<times> jsval \<Rightarrow> string \<times> jsval \<Rightarrow> int" where
  "by_key pf = (\<lambda>(a, _) (b, _). localeCompare pf a b)"

definition signatureData :: "platform \<Rightarrow> jsobject \<Rightarrow> jsval \<Rightarrow> jsval list" where
  "signatureData pf params apiSecret =
     flat (Array_sort (by_key pf) (Object_entries params)) @ [apiSecret]"

definition createSignature :: "platform \<Rightarrow> jsobject \<Rightarrow> jsval \<Rightarrow> string" where
  "createSignature pf params apiSecret = md5 pf (Array_join (signatureData pf params apiSecret) [])"

text \<open>
  What \<^verbatim>\<open>sort\<close> asks of its comparison function to promise a sorted result (a
  consistent comparator in the words of the language standard), here on a set of keys:
  swapping the arguments swaps the sign, and "not greater" is transitive
  (\<open>consistent_comparator_on\<close>). For the sorted order to be unique, the comparison must
  moreover never call two different keys equal (\<open>linear_order_on_keys\<close>).
\<close>

definition consistent_comparator_on :: "'a set \<Rightarrow> ('a \<Rightarrow> 'a \<Rightarrow> int) \<Rightarrow> bool" where
  "consistent_comparator_on K cmp \<longleftrightarrow>
     (\<forall>a\<in>K. \<forall>b\<in>K. (cmp a b < 0) = (0 < cmp b a)) \<and>
     (\<forall>a\<in>K. \<forall>b\<in>K. \<forall>c\<in>K. cmp a b \<le> 0 \<longrightarrow> cmp b c \<le> 0 \<longrightarrow> cmp a c \<le> 0)"

definition linear_order_on_keys :: "'a set \<Rightarrow> ('a \<Rightarrow> 'a \<Rightarrow> int) \<Rightarrow> bool" where
  "linear_order_on_keys K cmp \<longleftrightarrow>
     consistent_comparator_on K cmp \<and> (\<forall>a\<in>K. \<forall>b\<in>K. cmp a b = 0 \<longrightarrow> a = b)"

text \<open>The spec's words: entries in ascending order of their keys.\<close>

definition ascending_by_key :: "platform \<Rightarrow> (string \<times> jsval) list \<Rightarrow> bool" where
  "ascending_by_key pf es = sorted_wrt (\<lambda>x y. localeCompare pf (fst x) (fst y) \<le> 0) es"

text \<open>The spec's words: each key immediately followed by its value, then the secret.\<close>

definition signed_text :: "(string \<times> jsval) list \<Rightarrow> string \<Rightarrow> string" where
  "signed_text es secret = concat (map (\<lambda>(k, v). k @ join_element v) es) @ secret"

section \<open>Command line\<close>

text \<open>
  The option table of \<^verbatim>\<open>index.mjs\<close>, in the order \<^verbatim>\<open>Object.entries(options)\<close>
  walks it. A property the table leaves out (\<^verbatim>\<open>required\<close>, \<^verbatim>\<open>default\<close>) is
  \<open>False\<close>, respectively \<open>JUndefined\<close>.
\<close>

datatype opt_type = TString | TBoolean

record opt =
  opt_type :: opt_type
  opt_short :: string
  opt_description :: string
  opt_required :: bool
  opt_default :: jsval

definition options :: "(string \<times> opt) list" where
  "options =
    [(''api-key'', \<lparr>opt_type = TString, opt_short = ''k'', opt_description = ''Last.fm API key'',
        opt_required = True, opt_default = JUndefined\<rparr>),
     (''api-secret'', \<lparr>opt_type = TString, opt_short = ''s'', opt_description = ''Last.fm API secret'',
        opt_required = True, opt_default = JUndefined\<rparr>),
     (''username'', \<lparr>opt_type = TString, opt_short = ''u'', opt_description = ''Last.fm username'',
        opt_required = True, opt_default = JUndefined\<rparr>),
     (''password'', \<lparr>opt_type = TString, opt_short = ''p'', opt_description = ''Last.fm password'',
        opt_required = True, opt_default = JUndefined\<rparr>),
     (''delimiter'', \<lparr>opt_type = TString, opt_short = ''d'', opt_description = ''CSV delimiter'',
        opt_required = False, opt_default = JString '',''\<rparr>),
     (''header'', \<lparr>opt_type = TBoolean, opt_short = ''H'',
        opt_description = ''CSV has header row (recognised headers: artist, track, title)'',
        opt_required = False, opt_default = JBoolean False\<rparr>),
     (''debug'', \<lparr>opt_type = TBoolean, opt_short = ''D'', opt_description = ''Show debug output'',
        opt_required = False, opt_default = JBoolean False\<rparr>),
     (''help'', \<lparr>opt_type = TBoolean, opt_short = ''h'', opt_description = ''Show this help message'',
        opt_required = False, opt_default = JUndefined\<rparr>)]"

text \<open>
  The parsed \<^verbatim>\<open>values\<close>. A string option that was not given is the empty string here:
  the program reads the four credentials only through \<^verbatim>\<open>!values[param]\<close> before the
  required-flag check has passed, and that test does not tell \<^verbatim>\<open>undefined\<close> from
  the empty string. A boolean flag that was not given is \<open>False\<close>.
\<close>

record cli_values =
  api_key :: string
  api_secret :: string
  username :: string
  password :: string
  delimiter :: string
  header :: bool
  debug :: bool
  help_flag :: bool

text \<open>\<^verbatim>\<open>values[param]\<close>\<close>

definition values_at :: "cli_values \<Rightarrow> string \<Rightarrow> jsval" where
  "values_at v param =
     (if param = ''api-key'' then JString (api_key v)
      else if param = ''api-secret'' then JString (api_secret v)
      else if param = ''username'' then JString (username v)
      else if param = ''password'' then JString (password v)
      else if param = ''delimiter'' then JString (delimiter v)
      else if param = ''header'' then JBoolean (header v)
      else if param = ''debug'' then JBoolean (debug v)
      else if param = ''help'' then JBoolean (help_flag v)
      else JUndefined)"

text \<open>
  The required-flag loop stops at the first option with
  \<^verbatim>\<open>config.required && !values[param]\<close>; the result is that option's name.
\<close>

definition missing_required :: "cli_values \<Rightarrow> string option" where
  "missing_required v =
     map_option fst
       (find (\<lambda>(param, config). opt_required config \<and> \<not> truthy (values_at v param)) options)"

section \<open>Effects\<close>

text \<open>
  What a run does to the outside world, in order: text written to the two streams, a
  POST of a form body to the service, reading the input, and the timer of the pause.
\<close>

datatype event =
    Stdout string
  | Stderr string
  | Post "(string \<times> string) list"
  | ReadFile string
  | ReadStdin
  | Timeout nat

text \<open>
  How a run ends: \<^verbatim>\<open>process.exit(n)\<close>, falling off the end of the script (the
  runtime then exits with code 0), or an error that nothing catches (the runtime reports
  it; the script chooses no exit code).
\<close>

datatype outcome = Exit nat | Completed | Uncaught string

fun exit_code :: "outcome \<Rightarrow> nat option" where
  "exit_code (Exit n) = Some n"
| "exit_code Completed = Some 0"
| "exit_code (Uncaught m) = None"

text \<open>
  An awaited call either returns or throws; thrown errors are read only through
  \<^verbatim>\<open>error.message\<close>, so an error is its message. Every call comes with the events
  it caused.
\<close>

type_synonym 'a io = "event list \<times> (string + 'a)"

definition bind_io :: "'a io \<Rightarrow> ('a \<Rightarrow> 'b io) \<Rightarrow> 'b io" where
  "bind_io m f =
     (case m of
        (es, Inl e) \<Rightarrow> (es, Inl e)
      | (es, Inr x) \<Rightarrow> (case f x of (es', r) \<Rightarrow> (es @ es', r)))"

definition emit :: "event \<Rightarrow> unit io" where
  "emit e = ([e], Inr ())"

definition newline :: string where
  "newline = [CHR 0x0A]"

definition dquote :: string where
  "dquote = [CHR 0x22]"

section \<open>printHelp\<close>

definition padEnd :: "string \<Rightarrow> nat \<Rightarrow> string" where
  "padEnd s n = s @ replicate (n - length s) (CHR '' '')"

definition help_line :: "string \<times> opt \<Rightarrow> string" where
  "help_line = (\<lambda>(name, opt).
     let shortOpt = (if opt_short opt \<noteq> [] then ''-'' @ opt_short opt @ '', '' else ''    '');
         description = opt_description opt @
           (if opt_required opt then '' (required)''
            else if opt_default opt \<noteq> JUndefined
              then '' (default: '' @ dquote @ ToString (opt_default opt) @ dquote @ '')''
            else [])
     in shortOpt @ ''--'' @ padEnd name 12 @ '' '' @ description)"

definition printHelp :: "event list" where
  "printHelp =
     [Stdout (join_strings newline
        ([''Usage:'',
          ''scrobble-me-this OPTIONS CSV_FILE'',
          ''cat CSV_FILE | scrobble-me-this OPTIONS'',
          [],
          ''Options:'']
         @ map help_line options
         @ [[],
            ''Getting Last.fm API Credentials:'',
            ''1. Go to <https://www.last.fm/api/account/create>'',
            ''2. Create a new API account'',
            ''3. Note your API key and API secret'',
            ''4. Use your regular Last.fm username and password for authentication'',
            []]))]"

section \<open>The outside world\<close>

text \<open>
  The JSON payload of a reply, as far as the program reads it: \<^verbatim>\<open>data.error\<close>,
  \<^verbatim>\<open>data.message\<close> and \<^verbatim>\<open>data.session.key\<close> (\<open>None\<close> when \<^verbatim>\<open>data.session\<close>
  is missing, so that reading \<^verbatim>\<open>.key\<close> throws). A request may also throw: the
  connection fails, the body is not JSON, or the payload is \<^verbatim>\<open>null\<close>.
\<close>

datatype payload = Payload (data_error: jsval) (data_message: jsval) (data_session_key: "jsval option")

datatype reply = Rejected string | Json payload

text \<open>
  A parsed CSV record: an array of fields (no header) or an object keyed by the column
  names (header mode), the properties in enumeration order with distinct names.
\<close>

datatype csv_record = Fields "string list" | Columns "(string \<times> string) list"

text \<open>
  Everything a run reads from outside: the platform functions, the service's reply to
  the authentication request and to the submission of row \<open>i\<close> (0-based), the clock
  \<^verbatim>\<open>Date.now()\<close> in milliseconds as read while row \<open>i\<close> is processed, the file system
  (reading a file returns its text or throws), the chunks of standard input (read to the
  end), and the parser of \<^verbatim>\<open>csv-parse/sync\<close> (data, delimiter, columns flag), which
  returns the records or throws.
\<close>

record world =
  runtime :: platform
  auth_reply :: reply
  scrobble_reply :: "nat \<Rightarrow> reply"
  Date_now :: "nat \<Rightarrow> int"
  fs_readFile :: "string \<Rightarrow> string + string"
  stdin_chunks :: "string list"
  csv_parse :: "string \<Rightarrow> string \<Rightarrow> bool \<Rightarrow> string + csv_record list"

section \<open>Service client\<close>

text \<open>
  \<^verbatim>\<open>lastFmRequest\<close>: the body is \<^verbatim>\<open>{...params, api_sig, format: "json"}\<close>, every
  value rendered by \<^verbatim>\<open>URLSearchParams\<close>; the result is the parsed payload.
\<close>

definition request_body :: "world \<Rightarrow> cli_values \<Rightarrow> jsobject \<Rightarrow> (string \<times> string) list" where
  "request_body w v params =
     map (\<lambda>(k, x). (k, ToString x))
       (params @
        [(''api_sig'', JString (createSignature (runtime w) params (JString (api_secret v)))),
         (''format'', JString ''json'')])"

definition lastFmRequest :: "world \<Rightarrow> cli_values \<Rightarrow> jsobject \<Rightarrow> reply \<Rightarrow> payload io" where
  "lastFmRequest w v params r =
     ([Post (request_body w v params)],
      (case r of Rejected m \<Rightarrow> Inl m | Json data \<Rightarrow> Inr data))"

definition auth_params :: "world \<Rightarrow> cli_values \<Rightarrow> jsobject" where
  "auth_params w v =
     [(''api_key'', JString (api_key v)),
      (''method'', JString ''auth.getMobileSession''),
      (''username'', JString (username v)),
      (''authToken'', JString (md5 (runtime w) (username v @ md5 (runtime w) (password v))))]"

definition undefined_key_message :: string where
  "undefined_key_message =
     ''Cannot read properties of undefined (reading '' @ [CHR 0x27] @ ''key'' @ [CHR 0x27] @ '')''"

definition getAuthToken :: "world \<Rightarrow> cli_values \<Rightarrow> jsval io" where
  "getAuthToken w v =
     bind_io (lastFmRequest w v (auth_params w v) (auth_reply w)) (\<lambda>data.
       if truthy (data_error data)
       then ([], Inl (''Last.fm authentication error: '' @ ToString (data_message data)))
       else (case data_session_key data of
               None \<Rightarrow> ([], Inl undefined_key_message)
             | Some key \<Rightarrow> ([], Inr key)))"

definition scrobble_params ::
  "cli_values \<Rightarrow> jsval \<Rightarrow> jsval \<Rightarrow> jsval \<Rightarrow> int \<Rightarrow> jsobject" where
  "scrobble_params v sessionKey artist track timestamp =
     [(''method'', JString ''track.scrobble''),
      (''api_key'', JString (api_key v)),
      (''sk'', sessionKey),
      (''artist'', artist),
      (''track'', track),
      (''timestamp'', JNumber timestamp)]"

definition scrobbleTrack ::
  "world \<Rightarrow> cli_values \<Rightarrow> jsval \<Rightarrow> jsval \<Rightarrow> jsval \<Rightarrow> int \<Rightarrow> reply \<Rightarrow> payload io" where
  "scrobbleTrack w v sessionKey artist track timestamp r =
     bind_io (lastFmRequest w v (scrobble_params v sessionKey artist track timestamp) r) (\<lambda>data.
       if truthy (data_error data)
       then ([], Inl (''Last.fm scrobbling error: '' @ ToString (data_message data)))
       else ([], Inr data))"

section \<open>CSV reader\<close>

definition readInput :: "world \<Rightarrow> string list \<Rightarrow> string io" where
  "readInput w positionals =
     (if length positionals > 0
      then ([ReadFile (positionals ! 0)], fs_readFile w (positionals ! 0))
      else ([ReadStdin], Inr (concat (stdin_chunks w))))"

definition parseCsv :: "world \<Rightarrow> cli_values \<Rightarrow> string \<Rightarrow> csv_record list io" where
  "parseCsv w v csvData = ([], csv_parse w csvData (delimiter v) (header v))"

text \<open>
  Modelled from the spec: the parser of \<^verbatim>\<open>csv-parse/sync\<close> is a dependency, its code
  is not in the repository. "When header mode is enabled, treat the first record as
  column names and produce a mapping per subsequent row keyed by those names" (column
  names taken as distinct).
\<close>

definition header_records :: "string list list \<Rightarrow> csv_record list" where
  "header_records rows =
     (case rows of [] \<Rightarrow> [] | names # rest \<Rightarrow> map (\<lambda>fields. Columns (zip names fields)) rest)"

section \<open>Row resolver\<close>

text \<open>\<^verbatim>\<open>record.name\<close>: the field of that column, \<^verbatim>\<open>undefined\<close> when there is none.\<close>

definition property :: "csv_record \<Rightarrow> string \<Rightarrow> jsval" where
  "property r name =
     (case r of
        Fields xs \<Rightarrow> JUndefined
      | Columns kvs \<Rightarrow> (case map_of kvs name of None \<Rightarrow> JUndefined | Some s \<Rightarrow> JString s))"

definition Object_values :: "csv_record \<Rightarrow> string list" where
  "Object_values r = (case r of Fields xs \<Rightarrow> xs | Columns kvs \<Rightarrow> map snd kvs)"

text \<open>\<^verbatim>\<open>xs[i]\<close>: \<^verbatim>\<open>undefined\<close> beyond the end of the array.\<close>

definition at_index :: "string list \<Rightarrow> nat \<Rightarrow> jsval" where
  "at_index xs i = (if i < length xs then JString (xs ! i) else JUndefined)"

text \<open>Lines 221 to 231 of \<^verbatim>\<open>index.mjs\<close>: the pair \<^verbatim>\<open>(artist, track)\<close> of a record.\<close>

definition resolve :: "bool \<Rightarrow> csv_record \<Rightarrow> jsval \<times> jsval" where
  "resolve hdr r =
     (if hdr
      then (js_or (property r ''artist'') (property r ''Artist''),
            js_or (js_or (js_or (property r ''track'') (property r ''Track''))
                         (property r ''title''))
                  (property r ''Title''))
      else (at_index (Object_values r) 0, at_index (Object_values r) 1))"

text \<open>
  The spec's words: the first match among the named fields in priority order, a match
  being a field that is present and not empty; nothing when no field matches.
\<close>

definition first_match :: "csv_record \<Rightarrow> string list \<Rightarrow> string option" where
  "first_match r names =
     (case filter (\<lambda>n. truthy (property r n)) names of
        [] \<Rightarrow> None
      | n # _ \<Rightarrow> (case property r n of JString s \<Rightarrow> Some s | _ \<Rightarrow> None))"

section \<open>Scrobble loop\<close>

text \<open>
  \<^verbatim>\<open>Math.floor(Date.now() / 1000) - (records.length - i) * 30\<close>. The clock is a whole
  number of milliseconds below \<open>2^53\<close> in size; on that range the floor of the
  floating-point quotient is the integer quotient rounded down, which is \<open>div\<close> on
  \<open>int\<close>.
\<close>

definition timestamp_at :: "world \<Rightarrow> nat \<Rightarrow> nat \<Rightarrow> int" where
  "timestamp_at w n i = Date_now w i div 1000 - (int n - int i) * 30"

definition line_error :: "nat \<Rightarrow> string" where
  "line_error i =
     ''Error: Could not determine artist and track from line '' @ Number_toString (int i + 1) @ newline"

definition scrobbled_report :: "jsval \<Rightarrow> jsval \<Rightarrow> string" where
  "scrobbled_report artist track =
     ''Scrobbled: '' @ ToString artist @ '' - '' @ ToString track @ newline"

definition scrobble_error :: "jsval \<Rightarrow> jsval \<Rightarrow> string \<Rightarrow> string" where
  "scrobble_error artist track m =
     ''Error scrobbling '' @ dquote @ ToString artist @ '' - '' @ ToString track @ dquote
       @ '': '' @ m @ newline"

text \<open>
  One pass through the body of the \<^verbatim>\<open>for\<close> loop, for row \<open>i\<close>: the events and the
  two counters afterwards.
\<close>

definition loop_body ::
  "world \<Rightarrow> cli_values \<Rightarrow> jsval \<Rightarrow> csv_record list \<Rightarrow> nat \<Rightarrow> nat \<Rightarrow> nat
     \<Rightarrow> event list \<times> nat \<times> nat" where
  "loop_body w v sessionKey records i successCount errorCount =
     (case resolve (header v) (records ! i) of (artist, track) \<Rightarrow>
        if \<not> truthy artist \<or> \<not> truthy track
        then ([Stderr (line_error i)], successCount, errorCount + 1)
        else
          (case scrobbleTrack w v sessionKey artist track
                  (timestamp_at w (length records) i) (scrobble_reply w i) of
             (es, Inr data) \<Rightarrow>
               (es @ [Stdout (scrobbled_report artist track), Timeout 200],
                successCount + 1, errorCount)
           | (es, Inl m) \<Rightarrow>
               (es @ [Stderr (scrobble_error artist track m)], successCount, errorCount + 1)))"

function scrobble_loop ::
  "world \<Rightarrow> cli_values \<Rightarrow> jsval \<Rightarrow> csv_record list \<Rightarrow> nat \<Rightarrow> nat \<Rightarrow> nat
     \<Rightarrow> event list \<times> nat \<times> nat" where
  "scrobble_loop w v sessionKey records i successCount errorCount =
     (if i < length records
      then (case loop_body w v sessionKey records i successCount errorCount of
              (es, sc, ec) \<Rightarrow>
                (case scrobble_loop w v sessionKey records (i + 1) sc ec of
                   (es', r) \<Rightarrow> (es @ es', r)))
      else ([], successCount, errorCount))"
  by pat_completeness auto
termination
  by (relation "measure (\<lambda>(w, v, sessionKey, records, i, sc, ec). length records - i)") auto

declare scrobble_loop.simps [simp del]

definition summary :: "nat \<Rightarrow> nat \<Rightarrow> string" where
  "summary successCount errorCount =
     newline @ ''Scrobbling complete: '' @ Number_toString (int successCount) @ '' successful, ''
       @ Number_toString (int errorCount) @ '' failed'' @ newline"

text \<open>The body of the top-level \<^verbatim>\<open>try\<close>.\<close>

definition try_block :: "world \<Rightarrow> cli_values \<Rightarrow> string list \<Rightarrow> unit io" where
  "try_block w v positionals =
     bind_io (emit (Stdout (''Authenticating with Last.fm...'' @ newline))) (\<lambda>_.
     bind_io (getAuthToken w v) (\<lambda>sessionKey.
     bind_io (emit (Stdout (''Authentication successful'' @ newline))) (\<lambda>_.
     bind_io (readInput w positionals) (\<lambda>csvData.
     bind_io (parseCsv w v csvData) (\<lambda>records.
     bind_io (emit (Stdout (''Found '' @ Number_toString (int (length records))
                              @ '' tracks to scrobble'' @ newline))) (\<lambda>_.
       (case scrobble_loop w v sessionKey records 0 0 0 of
          (es, successCount, errorCount) \<Rightarrow>
            (es @ [Stdout (summary successCount errorCount)], Inr ()))))))))"

text \<open>The script from line 191 on: help, the required flags, the \<^verbatim>\<open>try\<close> and its \<^verbatim>\<open>catch\<close>.\<close>

definition main :: "world \<Rightarrow> cli_values \<Rightarrow> string list \<Rightarrow> event list \<times> outcome" where
  "main w v positionals =
     (if help_flag v then (printHelp, Exit 0)
      else (case missing_required v of
              Some param \<Rightarrow> ([Stderr (''Error: '' @ param @ '' is required'' @ newline)], Exit 1)
            | None \<Rightarrow>
                (case try_block w v positionals of
                   (es, Inr u) \<Rightarrow> (es, Completed)
                 | (es, Inl m) \<Rightarrow>
                     (es @ [Stderr (''Error: '' @ m @ newline)],
                      if debug v then Uncaught m else Exit 1))))"

section \<open>The spec's view of a run\<close>

text \<open>
  The notions the specification uses to describe the loop, each read off the inputs:
  a record resolves when both resolved values are truthy; a reply is accepted when the
  request returns and the payload has no truthy \<^verbatim>\<open>error\<close>; otherwise the call throws
  with the message below.
\<close>

definition resolved :: "cli_values \<Rightarrow> csv_record \<Rightarrow> bool" where
  "resolved v r = (case resolve (header v) r of (artist, track) \<Rightarrow> truthy artist \<and> truthy track)"

definition accepted :: "reply \<Rightarrow> bool" where
  "accepted r = (case r of Rejected m \<Rightarrow> False | Json data \<Rightarrow> \<not> truthy (data_error data))"

definition failure_message :: "string \<Rightarrow> reply \<Rightarrow> string" where
  "failure_message prefix r =
     (case r of Rejected m \<Rightarrow> m | Json data \<Rightarrow> prefix @ ToString (data_message data))"

definition row_succeeds :: "world \<Rightarrow> cli_values \<Rightarrow> csv_record list \<Rightarrow> nat \<Rightarrow> bool" where
  "row_succeeds w v rs i \<longleftrightarrow> resolved v (rs ! i) \<and> accepted (scrobble_reply w i)"

text \<open>The request that submits row \<open>i\<close> of the records \<open>rs\<close>.\<close>

definition submission :: "world \<Rightarrow> cli_values \<Rightarrow> jsval \<Rightarrow> csv_record list \<Rightarrow> nat \<Rightarrow> event" where
  "submission w v sessionKey rs i =
     (case resolve (header v) (rs ! i) of (artist, track) \<Rightarrow>
        Post (request_body w v
          (scrobble_params v sessionKey artist track (timestamp_at w (length rs) i))))"

text \<open>
  The three shapes of a row: a resolution failure, a successful submission followed by
  the report and the pause, a failed submission followed by its report.
\<close>

definition row_trace :: "world \<Rightarrow> cli_values \<Rightarrow> jsval \<Rightarrow> csv_record list \<Rightarrow> nat \<Rightarrow> event list" where
  "row_trace w v sessionKey rs i =
     (case resolve (header v) (rs ! i) of (artist, track) \<Rightarrow>
        if \<not> resolved v (rs ! i) then [Stderr (line_error i)]
        else if accepted (scrobble_reply w i)
        then [submission w v sessionKey rs i, Stdout (scrobbled_report artist track), Timeout 200]
        else [submission w v sessionKey rs i,
              Stderr (scrobble_error artist track
                 (failure_message ''Last.fm scrobbling error: '' (scrobble_reply w i)))])"

text \<open>The authentication request, and the two tallies of a list of records.\<close>

definition auth_request :: "world \<Rightarrow> cli_values \<Rightarrow> event" where
  "auth_request w v = Post (request_body w v (auth_params w v))"

definition successes :: "world \<Rightarrow> cli_values \<Rightarrow> csv_record list \<Rightarrow> nat" where
  "successes w v rs = length (filter (row_succeeds w v rs) [0..<length rs])"

definition failures :: "world \<Rightarrow> cli_values \<Rightarrow> csv_record list \<Rightarrow> nat" where
  "failures w v rs = length (filter (\<lambda>i. \<not> row_succeeds w v rs i) [0..<length rs])"

text \<open>Which request an event is, read from the \<^verbatim>\<open>method\<close> field of its body.\<close>

definition post_method :: "event \<Rightarrow> string option" where
  "post_method e = (case e of Post body \<Rightarrow> map_of body ''method'' | _ \<Rightarrow> None)"

definition is_auth :: "event \<Rightarrow> bool" where
  "is_auth e \<longleftrightarrow> post_method e = Some ''auth.getMobileSession''"

definition is_scrobble :: "event \<Rightarrow> bool" where
  "is_scrobble e \<longleftrightarrow> post_method e = Some ''track.scrobble''"

definition is_timeout :: "event \<Rightarrow> bool" where
  "is_timeout e = (case e of Timeout n \<Rightarrow> True | _ \<Rightarrow> False)"

definition is_stderr :: "event \<Rightarrow> bool" where
  "is_stderr e = (case e of Stderr s \<Rightarrow> True | _ \<Rightarrow> False)"

text \<open>The four required options were given (each is a non-empty string).\<close>

definition credentials_given :: "cli_values \<Rightarrow> bool" where
  "credentials_given v \<longleftrightarrow>
     api_key v \<noteq> [] \<and> api_secret v \<noteq> [] \<and> username v \<noteq> [] \<and> password v \<noteq> []"

text \<open>The \<^verbatim>\<open>timestamp\<close> field of a request.\<close>

definition submitted_timestamp :: "event \<Rightarrow> string option" where
  "submitted_timestamp e = (case e of Post body \<Rightarrow> map_of body ''timestamp'' | _ \<Rightarrow> None)"

text \<open>
  The top-level failures: authentication, reading the input, parsing it, in the order
  the script meets them; \<open>None\<close> when the run reaches the loop.
\<close>

definition top_level_failure :: "world \<Rightarrow> cli_values \<Rightarrow> string list \<Rightarrow> string option" where
  "top_level_failure w v positionals =
     (case snd (getAuthToken w v) of
        Inl m \<Rightarrow> Some m
      | Inr sessionKey \<Rightarrow>
          (case snd (readInput w positionals) of
             Inl m \<Rightarrow> Some m
           | Inr csvData \<Rightarrow>
               (case csv_parse w csvData (delimiter v) (header v) of
                  Inl m \<Rightarrow> Some m
                | Inr records \<Rightarrow> None)))"

section \<open>A concrete world\<close>

text \<open>
  Inputs to run the model on: code-unit order for the collation, a polynomial checksum
  in place of the digest, a service that accepts the login and rejects the second of
  three submissions.
\<close>

fun compare_units :: "string \<Rightarrow> string \<Rightarrow> int" where
  "compare_units [] [] = 0"
| "compare_units [] (y # ys) = - 1"
| "compare_units (x # xs) [] = 1"
| "compare_units (x # xs) (y # ys) =
     (if (of_char x :: nat) < of_char y then - 1
      else if (of_char y :: nat) < of_char x then 1
      else compare_units xs ys)"

definition checksum :: "string \<Rightarrow> 128 word" where
  "checksum s = foldl (\<lambda>h c. h * 31 + of_nat (of_char c)) 0 s"

definition sample_platform :: platform where
  "sample_platform = \<lparr>localeCompare = compare_units, createHash_md5 = checksum\<rparr>"

definition sample_values :: cli_values where
  "sample_values =
     \<lparr>api_key = ''key'', api_secret = ''secret'', username = ''user'', password = ''pass'',
      delimiter = '','', header = False, debug = False, help_flag = False\<rparr>"

definition sample_records :: "csv_record list" where
  "sample_records =
     [Fields [''Radiohead'', ''Paranoid Android''],
      Fields [''Portishead'', ''Roads''],
      Fields [''Massive Attack'', ''Teardrop'']]"

definition sample_world :: world where
  "sample_world =
     \<lparr>runtime = sample_platform,
      auth_reply = Json (Payload JUndefined JUndefined (Some (JString ''session''))),
      scrobble_reply = (\<lambda>i. if i = 1 then Json (Payload (JNumber 9) (JString ''Invalid session key'') None)
                             else Json (Payload JUndefined JUndefined None)),
      Date_now = (\<lambda>i. 1700000000000 + 250 * int i),
      fs_readFile = (\<lambda>path. Inr []),
      stdin_chunks = [],
      csv_parse = (\<lambda>csvData delim columns. Inr sample_records)\<rparr>"

text \<open>The same service with a clock that is set back by 100 seconds after the first row.\<close>

definition backward_clock_world :: world where
  "backward_clock_world =
     sample_world\<lparr>Date_now := (\<lambda>i. if i = 0 then 1700000100000 else 1700000000000)\<rparr>"

text \<open>
  A run in header mode. The input has three lines, the header and two rows, the second
  row without an artist; \<open>header_rows\<close> lists the fields of each line.
\<close>

definition header_rows :: "string list list" where
  "header_rows = [[''artist'', ''track''], [''Radiohead'', ''Creep''], ['''', ''Roads'']]"

definition header_values :: cli_values where
  "header_values = sample_values\<lparr>header := True\<rparr>"

definition header_world :: world where
  "header_world =
     sample_world\<lparr>csv_parse := (\<lambda>csvData delim columns. Inr (header_records header_rows))\<rparr>"

section \<open>The MD5 digest\<close>

text \<open>
  The digest behind \<^verbatim>\<open>crypto.createHash("md5")\<close>, as RFC 1321 defines it, on bytes
  and 32-bit words as natural numbers with the wrap-around written out: the sine table,
  the shift amounts, the four round functions, the padding to a multiple of 64 bytes
  with the bit length appended, words and output in little-endian order. The 16 bytes of
  the result are read as one 128-bit number, first byte most significant.
\<close>

definition md5_K :: "nat list" where
  "md5_K =
    [     3614090360, 3905402710, 606105819, 3250441966, 4118548399, 1200080426,
     2821735955, 4249261313, 1770035416, 2336552879, 4294925233, 2304563134,
     1804603682, 4254626195, 2792965006, 1236535329, 4129170786, 3225465664,
     643717713, 3921069994, 3593408605, 38016083, 3634488961, 3889429448,
     568446438, 3275163606, 4107603335, 1163531501, 2850285829, 4243563512,
     1735328473, 2368359562, 4294588738, 2272392833, 1839030562, 4259657740,
     2763975236, 1272893353, 4139469664, 3200236656, 681279174, 3936430074,
     3572445317, 76029189, 3654602809, 3873151461, 530742520, 3299628645,
     4096336452, 1126891415, 2878612391, 4237533241, 1700485571, 2399980690,
     4293915773, 2240044497, 1873313359, 4264355552, 2734768916, 1309151649,
     4149444226, 3174756917, 718787259, 3951481745]"

definition md5_shifts :: "nat list" where
  "md5_shifts =
    [     7, 12, 17, 22, 7, 12, 17, 22, 7, 12, 17, 22, 7, 12, 17, 22,
     5, 9, 14, 20, 5, 9, 14, 20, 5, 9, 14, 20, 5, 9, 14, 20,
     4, 11, 16, 23, 4, 11, 16, 23, 4, 11, 16, 23, 4, 11, 16, 23,
     6, 10, 15, 21, 6, 10, 15, 21, 6, 10, 15, 21, 6, 10, 15, 21]"

definition rotl32 :: "nat \<Rightarrow> nat \<Rightarrow> nat" where
  "rotl32 x s = (x * 2 ^ s) mod 4294967296 + x div 2 ^ (32 - s)"

definition not32 :: "nat \<Rightarrow> nat" where
  "not32 x = 4294967295 - x"

definition md5_F :: "nat \<Rightarrow> nat \<Rightarrow> nat \<Rightarrow> nat \<Rightarrow> nat" where
  "md5_F i b c d =
     (if i < 16 then (b AND c) OR (not32 b AND d)
      else if i < 32 then (d AND b) OR (not32 d AND c)
      else if i < 48 then b XOR c XOR d
      else c XOR (b OR not32 d))"

definition md5_g :: "nat \<Rightarrow> nat" where
  "md5_g i =
     (if i < 16 then i
      else if i < 32 then (5 * i + 1) mod 16
      else if i < 48 then (3 * i + 5) mod 16
      else (7 * i) mod 16)"

definition md5_step :: "nat list \<Rightarrow> nat \<times> nat \<times> nat \<times> nat \<Rightarrow> nat \<Rightarrow> nat \<times> nat \<times> nat \<times> nat" where
  "md5_step M st i =
     (case st of (a, b, c, d) \<Rightarrow>
        (d,
         (b + rotl32 ((a + md5_F i b c d + md5_K ! i + M ! md5_g i) mod 4294967296)
                (md5_shifts ! i)) mod 4294967296,
         b, c))"

definition md5_block :: "nat \<times> nat \<times> nat \<times> nat \<Rightarrow> nat list \<Rightarrow> nat \<times> nat \<times> nat \<times> nat" where
  "md5_block st M =
     (case st of (a0, b0, c0, d0) \<Rightarrow>
        (case foldl (md5_step M) st [0..<64] of (a, b, c, d) \<Rightarrow>
           ((a0 + a) mod 4294967296, (b0 + b) mod 4294967296,
            (c0 + c) mod 4294967296, (d0 + d) mod 4294967296)))"

definition le_bytes :: "nat \<Rightarrow> nat \<Rightarrow> nat list" where
  "le_bytes n x = map (\<lambda>j. (x div 256 ^ j) mod 256) [0..<n]"

definition le_word :: "nat list \<Rightarrow> nat" where
  "le_word bs = foldr (\<lambda>b acc. b + 256 * acc) bs 0"

definition md5_pad :: "nat list \<Rightarrow> nat list" where
  "md5_pad bytes =
     bytes @ [128] @ replicate ((119 - length bytes mod 64) mod 64) 0
       @ le_bytes 8 ((8 * length bytes) mod 18446744073709551616)"

definition chunks :: "nat \<Rightarrow> 'a list \<Rightarrow> 'a list list" where
  "chunks n xs = map (\<lambda>j. take n (drop (j * n) xs)) [0..<length xs div n]"

definition md5_bytes :: "nat list \<Rightarrow> nat list" where
  "md5_bytes bytes =
     (case foldl md5_block (1732584193, 4023233417, 2562383102, 271733878)
             (map (\<lambda>block. map le_word (chunks 4 block)) (chunks 64 (md5_pad bytes))) of
        (a, b, c, d) \<Rightarrow> le_bytes 4 a @ le_bytes 4 b @ le_bytes 4 c @ le_bytes 4 d)"

definition md5_digest :: "string \<Rightarrow> 128 word" where
  "md5_digest s = of_nat (foldl (\<lambda>acc b. acc * 256 + b) 0 (md5_bytes (map of_char s)))"

section \<open>A platform whose collation has ties\<close>

text \<open>
  The platform's collation gives the control characters U+0000 to U+0008 no weight: two
  strings that differ only in such characters compare equal. \<open>weightless_compare\<close>
  does the same and compares what remains by code unit; on keys made of these control
  characters only, as below, it returns what \<^verbatim>\<open>localeCompare\<close> returns.
\<close>

definition ignorable :: "char \<Rightarrow> bool" where
  "ignorable c \<longleftrightarrow> (of_char c :: nat) \<le> 8"

definition weightless_compare :: "string \<Rightarrow> string \<Rightarrow> int" where
  "weightless_compare a b =
     compare_units (filter (\<lambda>c. \<not> ignorable c) a) (filter (\<lambda>c. \<not> ignorable c) b)"

definition control_platform :: platform where
  "control_platform = \<lparr>localeCompare = weightless_compare, createHash_md5 = md5_digest\<rparr>"

text \<open>A parameter object with the keys U+0001 and U+0002, and the same entries swapped.\<close>

definition control_params :: jsobject where
  "control_params = [([CHR 0x01], JString ''a''), ([CHR 0x02], JString ''b'')]"

definition control_params_swapped :: jsobject where
  "control_params_swapped = [([CHR 0x02], JString ''b''), ([CHR 0x01], JString ''a'')]"

section \<open>Properties of the signature engine\<close>

lemma join_strings_empty: "join_strings [] xs = concat xs"
  by (induction "[] :: string" xs rule: join_strings.induct) simp_all

lemma Array_join_flat:
  "Array_join (flat es @ [JString s]) [] = signed_text es s"
  by (induction es) (auto simp: Array_join_def flat_def signed_text_def join_strings_empty)

lemma mset_sort_insert: "mset (sort_insert cmp x xs) = add_mset x (mset xs)"
  by (induction xs) simp_all

lemma mset_Array_sort: "mset (Array_sort cmp xs) = mset xs"
  by (induction xs) (simp_all add: Array_sort_def mset_sort_insert)

lemma set_Array_sort: "set (Array_sort cmp xs) = set xs"
  using mset_Array_sort [of cmp xs] by (metis set_mset_mset)

lemma consistent_comparator_onD1:
  "consistent_comparator_on K cmp \<Longrightarrow> a \<in> K \<Longrightarrow> b \<in> K \<Longrightarrow> \<not> cmp a b \<le> 0 \<Longrightarrow> cmp b a \<le> 0"
proof -
  assume c: "consistent_comparator_on K cmp" and k: "a \<in> K" "b \<in> K" and n: "\<not> cmp a b \<le> 0"
  from c k have "(cmp b a < 0) = (0 < cmp a b)"
    unfolding consistent_comparator_on_def by blast
  with n show "cmp b a \<le> 0" by simp
qed

lemma consistent_comparator_onD0:
  "consistent_comparator_on K cmp \<Longrightarrow> a \<in> K \<Longrightarrow> b \<in> K \<Longrightarrow>
     cmp a b \<le> 0 \<Longrightarrow> cmp b a \<le> 0 \<Longrightarrow> cmp a b = 0"
proof -
  assume c: "consistent_comparator_on K cmp" and k: "a \<in> K" "b \<in> K"
    and ab: "cmp a b \<le> 0" and ba: "cmp b a \<le> 0"
  from c k have "(cmp a b < 0) = (0 < cmp b a)"
    unfolding consistent_comparator_on_def by blast
  with ab ba show "cmp a b = 0" by simp
qed

lemma consistent_comparator_onD2:
  "consistent_comparator_on K cmp \<Longrightarrow> a \<in> K \<Longrightarrow> b \<in> K \<Longrightarrow> c \<in> K \<Longrightarrow>
     cmp a b \<le> 0 \<Longrightarrow> cmp b c \<le> 0 \<Longrightarrow> cmp a c \<le> 0"
  unfolding consistent_comparator_on_def by blast

lemma consistent_comparator_on_subset:
  "consistent_comparator_on K cmp \<Longrightarrow> L \<subseteq> K \<Longrightarrow> consistent_comparator_on L cmp"
  unfolding consistent_comparator_on_def by blast

lemma set_sort_insert: "set (sort_insert cmp x xs) = insert x (set xs)"
  by (induction xs) auto

lemma sorted_sort_insert:
  assumes "consistent_comparator_on (insert x (set xs)) cmp"
    and "sorted_wrt (\<lambda>a b. cmp a b \<le> 0) xs"
  shows "sorted_wrt (\<lambda>a b. cmp a b \<le> 0) (sort_insert cmp x xs)"
  using assms
proof (induction xs)
  case Nil
  then show ?case by simp
next
  case (Cons y ys)
  have tp: "consistent_comparator_on (insert x (set ys)) cmp"
    by (rule consistent_comparator_on_subset [OF Cons.prems(1)]) auto
  have sy: "sorted_wrt (\<lambda>a b. cmp a b \<le> 0) ys"
    using Cons.prems(2) by simp
  have yz: "\<forall>z\<in>set ys. cmp y z \<le> 0"
    using Cons.prems(2) by simp
  show ?case
  proof (cases "cmp x y \<le> 0")
    case True
    have "\<forall>z\<in>set ys. cmp x z \<le> 0"
    proof
      fix z assume z: "z \<in> set ys"
      show "cmp x z \<le> 0"
        by (rule consistent_comparator_onD2 [OF Cons.prems(1), of x y z]) (use z yz True in simp_all)
    qed
    with True Cons.prems(2) show ?thesis by simp
  next
    case False
    have yx: "cmp y x \<le> 0"
      by (rule consistent_comparator_onD1 [OF Cons.prems(1), of x y]) (use False in simp_all)
    have "\<forall>z\<in>set (sort_insert cmp x ys). cmp y z \<le> 0"
      using yx yz by (simp add: set_sort_insert)
    with False Cons.IH [OF tp sy] show ?thesis by simp
  qed
qed

lemma sorted_Array_sort:
  "consistent_comparator_on (set xs) cmp \<Longrightarrow> sorted_wrt (\<lambda>a b. cmp a b \<le> 0) (Array_sort cmp xs)"
proof (induction xs)
  case Nil
  then show ?case by (simp add: Array_sort_def)
next
  case (Cons x xs)
  have tp: "consistent_comparator_on (set xs) cmp"
    by (rule consistent_comparator_on_subset [OF Cons.prems]) auto
  have "consistent_comparator_on (insert x (set (Array_sort cmp xs))) cmp"
    using Cons.prems by (simp add: set_Array_sort)
  from sorted_sort_insert [OF this Cons.IH [OF tp]]
  show ?case by (simp add: Array_sort_def)
qed

text \<open>Under an antisymmetric order there is one sorted arrangement of a multiset.\<close>

lemma sorted_wrt_unique:
  assumes "sorted_wrt R xs" and "sorted_wrt R ys" and "mset xs = mset ys"
    and "\<forall>a\<in>set xs. \<forall>b\<in>set xs. R a b \<longrightarrow> R b a \<longrightarrow> a = b"
  shows "xs = ys"
  using assms
proof (induction xs arbitrary: ys)
  case Nil
  then show ?case by simp
next
  case (Cons x xs)
  from Cons.prems(3) obtain y ys' where ys: "ys = y # ys'"
    by (cases ys) auto
  have sets: "set (x # xs) = set ys"
    using Cons.prems(3) by (rule mset_eq_setD)
  have "x = y"
  proof (rule ccontr)
    assume ne: "x \<noteq> y"
    have xin: "x \<in> set ys'" and yin: "y \<in> set xs" using sets ys ne by auto
    have "R y x" using Cons.prems(2) ys xin by simp
    moreover have "R x y" using Cons.prems(1) yin by simp
    moreover have "x \<in> set (x # xs)" "y \<in> set (x # xs)" using yin by simp_all
    ultimately have "x = y" using Cons.prems(4) by blast
    with ne show False ..
  qed
  moreover have "xs = ys'"
  proof (rule Cons.IH)
    show "sorted_wrt R xs" using Cons.prems(1) by simp
    show "sorted_wrt R ys'" using Cons.prems(2) ys by simp
    show "mset xs = mset ys'" using Cons.prems(3) ys \<open>x = y\<close> by simp
    show "\<forall>a\<in>set xs. \<forall>b\<in>set xs. R a b \<longrightarrow> R b a \<longrightarrow> a = b"
      using Cons.prems(4) by simp
  qed
  ultimately show ?case using ys by simp
qed

lemma by_key_eq: "by_key pf x y = localeCompare pf (fst x) (fst y)"
  by (simp add: by_key_def split_beta)

lemma by_key_preorder:
  assumes "consistent_comparator_on (fst ` set P) (localeCompare pf)"
  shows "consistent_comparator_on (set P) (by_key pf)"
  unfolding consistent_comparator_on_def by_key_eq
proof (intro conjI ballI impI)
  fix a b assume "a \<in> set P" "b \<in> set P"
  then have "fst a \<in> fst ` set P" "fst b \<in> fst ` set P" by simp_all
  with assms show "(localeCompare pf (fst a) (fst b) < 0) = (0 < localeCompare pf (fst b) (fst a))"
    unfolding consistent_comparator_on_def by blast
next
  fix a b c assume "a \<in> set P" "b \<in> set P" "c \<in> set P"
    and ab: "localeCompare pf (fst a) (fst b) \<le> 0" and bc: "localeCompare pf (fst b) (fst c) \<le> 0"
  then have "fst a \<in> fst ` set P" "fst b \<in> fst ` set P" "fst c \<in> fst ` set P" by simp_all
  with assms ab bc show "localeCompare pf (fst a) (fst c) \<le> 0"
    unfolding consistent_comparator_on_def by blast
qed

lemma length_digest_hex: "length (digest_hex w) = 32"
  by (simp add: digest_hex_def)

lemma set_digest_hex: "set (digest_hex w) \<subseteq> set ''0123456789abcdef''"
proof -
  have "hex_digit n \<in> set ''0123456789abcdef''" for n
    unfolding hex_digit_def by (rule nth_mem) simp
  then show ?thesis unfolding digest_hex_def by auto
qed

section \<open>Properties of the loop\<close>

lemma loop_body_eq:
  "loop_body w v sk rs i sc ec =
     (row_trace w v sk rs i,
      if row_succeeds w v rs i then (sc + 1, ec) else (sc, ec + 1))"
proof (cases "resolve (header v) (rs ! i)")
  case (Pair artist track)
  show ?thesis
  proof (cases "scrobble_reply w i")
    case (Rejected m)
    with Pair show ?thesis
      by (simp add: loop_body_def row_trace_def row_succeeds_def resolved_def accepted_def
        submission_def scrobbleTrack_def lastFmRequest_def bind_io_def failure_message_def)
  next
    case (Json data)
    with Pair show ?thesis
      by (simp add: loop_body_def row_trace_def row_succeeds_def resolved_def accepted_def
        submission_def scrobbleTrack_def lastFmRequest_def bind_io_def failure_message_def)
  qed
qed

lemma scrobble_loop_eq:
  "scrobble_loop w v sk rs i sc ec =
     (concat (map (row_trace w v sk rs) [i..<length rs]),
      sc + length (filter (row_succeeds w v rs) [i..<length rs]),
      ec + length (filter (\<lambda>j. \<not> row_succeeds w v rs j) [i..<length rs]))"
proof (induction w v sk rs i sc ec rule: scrobble_loop.induct)
  case (1 w v sk rs i sc ec)
  show ?case
  proof (cases "i < length rs")
    case False
    then show ?thesis by (simp add: scrobble_loop.simps [of w v sk rs i])
  next
    case True
    then have upt: "[i..<length rs] = i # [i + 1..<length rs]"
      by (simp add: upt_conv_Cons)
    show ?thesis
    proof (cases "row_succeeds w v rs i")
      case ok: True
      have lb: "loop_body w v sk rs i sc ec = (row_trace w v sk rs i, sc + 1, ec)"
        by (simp add: loop_body_eq ok)
      have ih: "scrobble_loop w v sk rs (i + 1) (sc + 1) ec =
        (concat (map (row_trace w v sk rs) [i + 1..<length rs]),
         sc + 1 + length (filter (row_succeeds w v rs) [i + 1..<length rs]),
         ec + length (filter (\<lambda>j. \<not> row_succeeds w v rs j) [i + 1..<length rs]))"
        by (rule "1.IH" [OF True lb [symmetric] refl])
      show ?thesis
        using True ok ih by (simp add: scrobble_loop.simps [of w v sk rs i] lb upt)
    next
      case ko: False
      have lb: "loop_body w v sk rs i sc ec = (row_trace w v sk rs i, sc, ec + 1)"
        by (simp add: loop_body_eq ko)
      have ih: "scrobble_loop w v sk rs (i + 1) sc (ec + 1) =
        (concat (map (row_trace w v sk rs) [i + 1..<length rs]),
         sc + length (filter (row_succeeds w v rs) [i + 1..<length rs]),
         ec + 1 + length (filter (\<lambda>j. \<not> row_succeeds w v rs j) [i + 1..<length rs]))"
        by (rule "1.IH" [OF True lb [symmetric] refl])
      show ?thesis
        using True ko ih by (simp add: scrobble_loop.simps [of w v sk rs i] lb upt)
    qed
  qed
qed

section \<open>Properties of the script\<close>


lemma getAuthToken_fst: "fst (getAuthToken w v) = [auth_request w v]"
proof (cases "auth_reply w")
  case (Rejected m)
  then show ?thesis
    by (simp add: getAuthToken_def lastFmRequest_def bind_io_def auth_request_def)
next
  case (Json data)
  then show ?thesis
    by (cases "data_session_key data")
       (simp_all add: getAuthToken_def lastFmRequest_def bind_io_def auth_request_def)
qed

lemma getAuthToken_eq: "getAuthToken w v = ([auth_request w v], snd (getAuthToken w v))"
  using getAuthToken_fst [of w v] by (cases "getAuthToken w v") simp

lemma try_block_auth_fails:
  assumes "snd (getAuthToken w v) = Inl m"
  shows "try_block w v pos =
    ([Stdout (''Authenticating with Last.fm...'' @ newline), auth_request w v], Inl m)"
proof -
  have "getAuthToken w v = ([auth_request w v], Inl m)"
    using getAuthToken_eq [of w v] assms by simp
  then show ?thesis
    by (simp add: try_block_def bind_io_def emit_def)
qed

lemma try_block_read_fails:
  assumes "snd (getAuthToken w v) = Inr sk" and "snd (readInput w pos) = Inl m"
  shows "try_block w v pos =
    ([Stdout (''Authenticating with Last.fm...'' @ newline), auth_request w v,
      Stdout (''Authentication successful'' @ newline)] @ fst (readInput w pos), Inl m)"
proof -
  have a: "getAuthToken w v = ([auth_request w v], Inr sk)"
    using getAuthToken_eq [of w v] assms by simp
  have r: "readInput w pos = (fst (readInput w pos), Inl m)"
    using assms(2) by (cases "readInput w pos") simp
  show ?thesis
    unfolding try_block_def a by (subst r) (simp add: bind_io_def emit_def)
qed

lemma try_block_parse_fails:
  assumes "snd (getAuthToken w v) = Inr sk" and "snd (readInput w pos) = Inr csvData"
    and "csv_parse w csvData (delimiter v) (header v) = Inl m"
  shows "try_block w v pos =
    ([Stdout (''Authenticating with Last.fm...'' @ newline), auth_request w v,
      Stdout (''Authentication successful'' @ newline)] @ fst (readInput w pos), Inl m)"
proof -
  have a: "getAuthToken w v = ([auth_request w v], Inr sk)"
    using getAuthToken_eq [of w v] assms by simp
  have r: "readInput w pos = (fst (readInput w pos), Inr csvData)"
    using assms(2) by (cases "readInput w pos") simp
  show ?thesis
    unfolding try_block_def a by (subst r) (simp add: bind_io_def emit_def parseCsv_def assms(3))
qed

lemma try_block_loop:
  assumes "snd (getAuthToken w v) = Inr sk" and "snd (readInput w pos) = Inr csvData"
    and "csv_parse w csvData (delimiter v) (header v) = Inr rs"
  shows "try_block w v pos =
    ([Stdout (''Authenticating with Last.fm...'' @ newline), auth_request w v,
      Stdout (''Authentication successful'' @ newline)] @ fst (readInput w pos)
      @ [Stdout (''Found '' @ Number_toString (int (length rs)) @ '' tracks to scrobble'' @ newline)]
      @ concat (map (row_trace w v sk rs) [0..<length rs])
      @ [Stdout (summary (successes w v rs) (failures w v rs))], Inr ())"
proof -
  have a: "getAuthToken w v = ([auth_request w v], Inr sk)"
    using getAuthToken_eq [of w v] assms by simp
  have r: "readInput w pos = (fst (readInput w pos), Inr csvData)"
    using assms(2) by (cases "readInput w pos") simp
  show ?thesis
    unfolding try_block_def a
    by (subst r)
       (simp add: bind_io_def emit_def parseCsv_def assms(3) scrobble_loop_eq
          successes_def failures_def)
qed

lemma top_level_failure_cases:
  obtains (auth) m where "snd (getAuthToken w v) = Inl m" "top_level_failure w v pos = Some m"
  | (read) sk m where "snd (getAuthToken w v) = Inr sk" "snd (readInput w pos) = Inl m"
      "top_level_failure w v pos = Some m"
  | (parse) sk csvData m where "snd (getAuthToken w v) = Inr sk"
      "snd (readInput w pos) = Inr csvData"
      "csv_parse w csvData (delimiter v) (header v) = Inl m" "top_level_failure w v pos = Some m"
  | (loop) sk csvData rs where "snd (getAuthToken w v) = Inr sk"
      "snd (readInput w pos) = Inr csvData"
      "csv_parse w csvData (delimiter v) (header v) = Inr rs" "top_level_failure w v pos = None"
proof (cases "snd (getAuthToken w v)")
  case (Inl m)
  then show ?thesis using auth by (simp add: top_level_failure_def)
next
  case a: (Inr sk)
  show ?thesis
  proof (cases "snd (readInput w pos)")
    case (Inl m)
    then show ?thesis using a read by (simp add: top_level_failure_def)
  next
    case r: (Inr csvData)
    show ?thesis
    proof (cases "csv_parse w csvData (delimiter v) (header v)")
      case (Inl m)
      then show ?thesis using a r parse by (simp add: top_level_failure_def)
    next
      case (Inr rs)
      then show ?thesis using a r loop by (simp add: top_level_failure_def)
    qed
  qed
qed

lemma missing_required_iff:
  "missing_required v = None \<longleftrightarrow>
     api_key v \<noteq> [] \<and> api_secret v \<noteq> [] \<and> username v \<noteq> [] \<and> password v \<noteq> []"
  by (simp add: missing_required_def options_def values_at_def)


section \<open>The sample collation is a linear order\<close>


lemma compare_units_Nil: "compare_units [] b \<le> 0"
  by (cases b) simp_all

lemma compare_units_Cons_Nil: "\<not> compare_units (x # xs) [] \<le> 0"
  by simp

lemma compare_units_Cons_le:
  "compare_units (x # xs) (y # ys) \<le> 0 \<longleftrightarrow>
     (of_char x :: nat) < of_char y \<or> ((of_char x :: nat) = of_char y \<and> compare_units xs ys \<le> 0)"
proof (cases "(of_char x :: nat) < of_char y")
  case True
  then show ?thesis by simp
next
  case nlt: False
  show ?thesis
  proof (cases "(of_char y :: nat) < of_char x")
    case True
    then have "(of_char x :: nat) \<noteq> of_char y" by linarith
    with nlt True show ?thesis by simp
  next
    case False
    with nlt have "(of_char x :: nat) = of_char y" by linarith
    with nlt False show ?thesis by simp
  qed
qed

lemma compare_units_antisym:
  "compare_units a b \<le> 0 \<Longrightarrow> compare_units b a \<le> 0 \<Longrightarrow> a = b"
proof (induction a arbitrary: b)
  case Nil
  then show ?case by (cases b) simp_all
next
  case (Cons x xs)
  show ?case
  proof (cases b)
    case Nil
    with Cons.prems show ?thesis by simp
  next
    case c: (Cons y ys)
    from Cons.prems have eq: "(of_char x :: nat) = of_char y"
      and le: "compare_units xs ys \<le> 0" "compare_units ys xs \<le> 0"
      unfolding c compare_units_Cons_le by linarith+
    from eq have "x = y" by simp
    with Cons.IH [OF le] c show ?thesis by simp
  qed
qed

lemma compare_units_trans:
  "compare_units a b \<le> 0 \<Longrightarrow> compare_units b c \<le> 0 \<Longrightarrow> compare_units a c \<le> 0"
proof (induction a arbitrary: b c)
  case Nil
  show ?case by (rule compare_units_Nil)
next
  case (Cons x xs)
  from Cons.prems(1) obtain y ys where b: "b = y # ys"
    by (cases b) simp_all
  from Cons.prems(2) b obtain z zs where c: "c = z # zs"
    by (cases c) simp_all
  from Cons.prems(1) have xy: "(of_char x :: nat) < of_char y
      \<or> ((of_char x :: nat) = of_char y \<and> compare_units xs ys \<le> 0)"
    unfolding b compare_units_Cons_le .
  from Cons.prems(2) have yz: "(of_char y :: nat) < of_char z
      \<or> ((of_char y :: nat) = of_char z \<and> compare_units ys zs \<le> 0)"
    unfolding b c compare_units_Cons_le .
  have "(of_char x :: nat) < of_char z
      \<or> ((of_char x :: nat) = of_char z \<and> compare_units xs zs \<le> 0)"
  proof (cases "(of_char x :: nat) = of_char y \<and> (of_char y :: nat) = of_char z")
    case True
    with xy yz have "compare_units xs ys \<le> 0" "compare_units ys zs \<le> 0" by simp_all
    then have "compare_units xs zs \<le> 0" by (rule Cons.IH)
    with True show ?thesis by simp
  next
    case False
    with xy yz show ?thesis by linarith
  qed
  then show ?case unfolding c compare_units_Cons_le .
qed

lemma compare_units_sym: "(compare_units a b < 0) = (0 < compare_units b a)"
proof (induction a arbitrary: b)
  case Nil
  show ?case by (cases b) simp_all
next
  case (Cons x xs)
  show ?case
  proof (cases b)
    case Nil
    then show ?thesis by simp
  next
    case c: (Cons y ys)
    show ?thesis
    proof (cases "(of_char x :: nat) < of_char y")
      case True
      then show ?thesis by (simp add: c)
    next
      case nlt: False
      show ?thesis
      proof (cases "(of_char y :: nat) < of_char x")
        case True
        with nlt show ?thesis by (simp add: c)
      next
        case False
        with nlt Cons.IH [of ys] show ?thesis by (simp add: c)
      qed
    qed
  qed
qed

lemma compare_units_linear: "linear_order_on_keys K compare_units"
  unfolding linear_order_on_keys_def consistent_comparator_on_def
proof (intro conjI ballI impI)
  fix a b show "(compare_units a b < 0) = (0 < compare_units b a)"
    by (rule compare_units_sym)
next
  fix a b c assume "compare_units a b \<le> 0" "compare_units b c \<le> 0"
  then show "compare_units a c \<le> 0" by (rule compare_units_trans)
next
  fix a b assume e: "compare_units a b = 0"
  from compare_units_sym [of a b] e have "compare_units b a \<le> 0" by simp
  with e show "a = b" by (simp add: compare_units_antisym)
qed

lemma localeCompare_sample: "localeCompare sample_platform = compare_units"
  by (simp add: sample_platform_def)

lemma sorted_sample:
  "Array_sort (by_key sample_platform)
       [(''method'', JString ''track.scrobble''), (''api_key'', JString ''key''),
        (''timestamp'', JNumber 1699999910)] =
   [(''api_key'', JString ''key''), (''method'', JString ''track.scrobble''),
        (''timestamp'', JNumber 1699999910)]"
  by (simp add: Array_sort_def by_key_def localeCompare_sample)


section \<open>The digests of two texts\<close>

text \<open>
  The MD5 digests of the two texts signed in the example with tied keys, computed block
  by block: the padded message, its sixteen words, the state after each group of sixteen
  steps, and the digest.
\<close>

lemma rotl32_numeral:
  "rotl32 (numeral x) (numeral s) =
     (numeral x * 2 ^ numeral s) mod 4294967296 + numeral x div 2 ^ (32 - numeral s)"
  by (simp add: rotl32_def)

lemma not32_numeral: "not32 (numeral x) = 4294967295 - numeral x"
  by (simp add: not32_def)

lemma replicate_numeral: "replicate (numeral k) x = x # replicate (pred_numeral k) x"
  by (simp add: numeral_eq_Suc)

lemma upt_64:
  "[0..<64] = [0, 1, 2, 3, 4, 5, 6, 7, 8, 9, 10, 11, 12, 13, 14, 15] @ [16, 17, 18, 19, 20, 21, 22, 23, 24, 25, 26, 27, 28, 29, 30, 31] @ [32, 33, 34, 35, 36, 37, 38, 39, 40, 41, 42, 43, 44, 45, 46, 47] @ [48, 49, 50, 51, 52, 53, 54, 55, 56, 57, 58, 59, 60, 61, 62, 63]"
  by (simp add: upt_rec)

lemma md5_pad_forward:
  "md5_pad [1, 97, 2, 98, 115] =
     [1, 97, 2, 98, 115, 128, 0, 0, 0, 0, 0, 0, 0, 0, 0, 0, 0, 0, 0, 0, 0, 0, 0, 0, 0, 0, 0,
       0, 0, 0, 0, 0, 0, 0, 0, 0, 0, 0, 0, 0, 0, 0, 0, 0, 0, 0, 0, 0, 0, 0, 0, 0, 0, 0, 0, 0,
       40, 0, 0, 0, 0, 0, 0, 0]"
  by (simp add: md5_pad_def le_bytes_def upt_rec replicate_numeral)

lemma md5_words_forward:
  "map (\<lambda>block. map le_word (chunks 4 block))
     (chunks 64
       [1, 97, 2, 98, 115, 128, 0, 0, 0, 0, 0, 0, 0, 0, 0, 0, 0, 0, 0, 0, 0, 0, 0, 0, 0, 0, 0,
       0, 0, 0, 0, 0, 0, 0, 0, 0, 0, 0, 0, 0, 0, 0, 0, 0, 0, 0, 0, 0, 0, 0, 0, 0, 0, 0, 0, 0,
       40, 0, 0, 0, 0, 0, 0, 0]) =
   [[1644323073, 32883, 0, 0, 0, 0, 0, 0, 0, 0, 0, 0, 0, 0, 40, 0]]"
  by (simp add: chunks_def le_word_def upt_rec)

lemma md5_rounds0_forward:
  "foldl (md5_step
       [1644323073, 32883, 0, 0, 0, 0, 0, 0, 0, 0, 0, 0, 0, 0, 40, 0])
     (1732584193, 4023233417, 2562383102, 271733878) [0, 1, 2, 3, 4, 5, 6, 7, 8, 9, 10, 11, 12, 13, 14, 15] =
   (4107389431, 733945086, 2744115084, 3666780431)"
  by (simp add: md5_step_def md5_F_def md5_g_def md5_K_def md5_shifts_def rotl32_numeral
      not32_numeral)

lemma md5_rounds1_forward:
  "foldl (md5_step
       [1644323073, 32883, 0, 0, 0, 0, 0, 0, 0, 0, 0, 0, 0, 0, 40, 0])
     (4107389431, 733945086, 2744115084, 3666780431) [16, 17, 18, 19, 20, 21, 22, 23, 24, 25, 26, 27, 28, 29, 30, 31] =
   (2498191002, 2577092660, 2404822601, 1203300273)"
  by (simp add: md5_step_def md5_F_def md5_g_def md5_K_def md5_shifts_def rotl32_numeral
      not32_numeral)

lemma md5_rounds2_forward:
  "foldl (md5_step
       [1644323073, 32883, 0, 0, 0, 0, 0, 0, 0, 0, 0, 0, 0, 0, 40, 0])
     (2498191002, 2577092660, 2404822601, 1203300273) [32, 33, 34, 35, 36, 37, 38, 39, 40, 41, 42, 43, 44, 45, 46, 47] =
   (1133472781, 1935585285, 1871617814, 553393231)"
  by (simp add: md5_step_def md5_F_def md5_g_def md5_K_def md5_shifts_def rotl32_numeral
      not32_numeral)

lemma md5_rounds3_forward:
  "foldl (md5_step
       [1644323073, 32883, 0, 0, 0, 0, 0, 0, 0, 0, 0, 0, 0, 0, 40, 0])
     (1133472781, 1935585285, 1871617814, 553393231) [48, 49, 50, 51, 52, 53, 54, 55, 56, 57, 58, 59, 60, 61, 62, 63] =
   (2019032414, 1296920500, 2019667711, 3738841479)"
  by (simp add: md5_step_def md5_F_def md5_g_def md5_K_def md5_shifts_def rotl32_numeral
      not32_numeral)

lemma md5_digest_forward:
  "md5_digest [CHR 0x01, CHR ''a'', CHR 0x02, CHR ''b'', CHR ''s''] = 126446015124139491646826287021504662767"
proof -
  have r: "foldl (md5_step
       [1644323073, 32883, 0, 0, 0, 0, 0, 0, 0, 0, 0, 0, 0, 0, 40, 0])
     (1732584193, 4023233417, 2562383102, 271733878) [0..<64] =
   (2019032414, 1296920500, 2019667711, 3738841479)"
    unfolding upt_64 foldl_append md5_rounds0_forward md5_rounds1_forward md5_rounds2_forward
      md5_rounds3_forward by (rule refl)
  have k: "md5_block (1732584193, 4023233417, 2562383102, 271733878)
       [1644323073, 32883, 0, 0, 0, 0, 0, 0, 0, 0, 0, 0, 0, 0, 40, 0] =
     (3751616607, 1025186621, 287083517, 4010575357)"
    unfolding md5_block_def r by simp
  have b: "md5_bytes [1, 97, 2, 98, 115] =
     [95, 32, 157, 223, 61, 27, 27, 61, 253, 139, 28, 17, 253, 133, 12, 239]"
    unfolding md5_bytes_def md5_pad_forward md5_words_forward foldl.simps k
    by (simp add: le_bytes_def upt_rec)
  have c: "map of_char [CHR 0x01, CHR ''a'', CHR 0x02, CHR ''b'', CHR ''s''] = ([1, 97, 2, 98, 115] :: nat list)"
    by simp
  show ?thesis
    unfolding md5_digest_def c b by simp
qed

lemma md5_hex_forward:
  "digest_hex (md5_digest [CHR 0x01, CHR ''a'', CHR 0x02, CHR ''b'', CHR ''s'']) = ''5f209ddf3d1b1b3dfd8b1c11fd850cef''"
  unfolding md5_digest_forward by (simp add: digest_hex_def hex_digit_def upt_rec)

lemma md5_pad_backward:
  "md5_pad [2, 98, 1, 97, 115] =
     [2, 98, 1, 97, 115, 128, 0, 0, 0, 0, 0, 0, 0, 0, 0, 0, 0, 0, 0, 0, 0, 0, 0, 0, 0, 0, 0,
       0, 0, 0, 0, 0, 0, 0, 0, 0, 0, 0, 0, 0, 0, 0, 0, 0, 0, 0, 0, 0, 0, 0, 0, 0, 0, 0, 0, 0,
       40, 0, 0, 0, 0, 0, 0, 0]"
  by (simp add: md5_pad_def le_bytes_def upt_rec replicate_numeral)

lemma md5_words_backward:
  "map (\<lambda>block. map le_word (chunks 4 block))
     (chunks 64
       [2, 98, 1, 97, 115, 128, 0, 0, 0, 0, 0, 0, 0, 0, 0, 0, 0, 0, 0, 0, 0, 0, 0, 0, 0, 0, 0,
       0, 0, 0, 0, 0, 0, 0, 0, 0, 0, 0, 0, 0, 0, 0, 0, 0, 0, 0, 0, 0, 0, 0, 0, 0, 0, 0, 0, 0,
       40, 0, 0, 0, 0, 0, 0, 0]) =
   [[1627480578, 32883, 0, 0, 0, 0, 0, 0, 0, 0, 0, 0, 0, 0, 40, 0]]"
  by (simp add: chunks_def le_word_def upt_rec)

lemma md5_rounds0_backward:
  "foldl (md5_step
       [1627480578, 32883, 0, 0, 0, 0, 0, 0, 0, 0, 0, 0, 0, 0, 40, 0])
     (1732584193, 4023233417, 2562383102, 271733878) [0, 1, 2, 3, 4, 5, 6, 7, 8, 9, 10, 11, 12, 13, 14, 15] =
   (3410777542, 1689719263, 2994532711, 1899491498)"
  by (simp add: md5_step_def md5_F_def md5_g_def md5_K_def md5_shifts_def rotl32_numeral
      not32_numeral)

lemma md5_rounds1_backward:
  "foldl (md5_step
       [1627480578, 32883, 0, 0, 0, 0, 0, 0, 0, 0, 0, 0, 0, 0, 40, 0])
     (3410777542, 1689719263, 2994532711, 1899491498) [16, 17, 18, 19, 20, 21, 22, 23, 24, 25, 26, 27, 28, 29, 30, 31] =
   (3594671158, 809113303, 3212371621, 2732389747)"
  by (simp add: md5_step_def md5_F_def md5_g_def md5_K_def md5_shifts_def rotl32_numeral
      not32_numeral)

lemma md5_rounds2_backward:
  "foldl (md5_step
       [1627480578, 32883, 0, 0, 0, 0, 0, 0, 0, 0, 0, 0, 0, 0, 40, 0])
     (3594671158, 809113303, 3212371621, 2732389747) [32, 33, 34, 35, 36, 37, 38, 39, 40, 41, 42, 43, 44, 45, 46, 47] =
   (2967967214, 3669440023, 1275882461, 3321691359)"
  by (simp add: md5_step_def md5_F_def md5_g_def md5_K_def md5_shifts_def rotl32_numeral
      not32_numeral)

lemma md5_rounds3_backward:
  "foldl (md5_step
       [1627480578, 32883, 0, 0, 0, 0, 0, 0, 0, 0, 0, 0, 0, 0, 40, 0])
     (2967967214, 3669440023, 1275882461, 3321691359) [48, 49, 50, 51, 52, 53, 54, 55, 56, 57, 58, 59, 60, 61, 62, 63] =
   (588825443, 127912446, 2689321884, 3408147908)"
  by (simp add: md5_step_def md5_F_def md5_g_def md5_K_def md5_shifts_def rotl32_numeral
      not32_numeral)

lemma md5_digest_backward:
  "md5_digest [CHR 0x02, CHR ''b'', CHR 0x01, CHR ''a'', CHR ''s''] = 134118925095456604170983814196856772315"
proof -
  have r: "foldl (md5_step
       [1627480578, 32883, 0, 0, 0, 0, 0, 0, 0, 0, 0, 0, 0, 0, 40, 0])
     (1732584193, 4023233417, 2562383102, 271733878) [0..<64] =
   (588825443, 127912446, 2689321884, 3408147908)"
    unfolding upt_64 foldl_append md5_rounds0_backward md5_rounds1_backward md5_rounds2_backward
      md5_rounds3_backward by (rule refl)
  have k: "md5_block (1732584193, 4023233417, 2562383102, 271733878)
       [1627480578, 32883, 0, 0, 0, 0, 0, 0, 0, 0, 0, 0, 0, 0, 40, 0] =
     (2321409636, 4151145863, 956737690, 3679881786)"
    unfolding md5_block_def r by simp
  have b: "md5_bytes [2, 98, 1, 97, 115] =
     [100, 230, 93, 138, 135, 117, 109, 247, 154, 168, 6, 57, 58, 138, 86, 219]"
    unfolding md5_bytes_def md5_pad_backward md5_words_backward foldl.simps k
    by (simp add: le_bytes_def upt_rec)
  have c: "map of_char [CHR 0x02, CHR ''b'', CHR 0x01, CHR ''a'', CHR ''s''] = ([2, 98, 1, 97, 115] :: nat list)"
    by simp
  show ?thesis
    unfolding md5_digest_def c b by simp
qed

lemma md5_hex_backward:
  "digest_hex (md5_digest [CHR 0x02, CHR ''b'', CHR 0x01, CHR ''a'', CHR ''s'']) = ''64e65d8a87756df79aa806393a8a56db''"
  unfolding md5_digest_backward by (simp add: digest_hex_def hex_digit_def upt_rec)

section \<open>The collation with ties on the example keys\<close>

lemma control_ties:
  "weightless_compare [CHR 0x01] [CHR 0x02] = 0" "weightless_compare [CHR 0x02] [CHR 0x01] = 0"
  "weightless_compare [CHR 0x01] [CHR 0x01] = 0" "weightless_compare [CHR 0x02] [CHR 0x02] = 0"
  by (simp_all add: weightless_compare_def ignorable_def)

lemma control_consistent:
  "consistent_comparator_on (fst ` set control_params) (localeCompare control_platform)"
  by (simp add: consistent_comparator_on_def control_params_def control_platform_def control_ties)

lemma control_sorted:
  "Array_sort (by_key control_platform) control_params = control_params"
  "Array_sort (by_key control_platform) control_params_swapped = control_params_swapped"
  by (simp_all add: Array_sort_def by_key_def control_platform_def control_params_def
      control_params_swapped_def control_ties)

lemma control_texts:
  "Array_join (signatureData control_platform control_params (JString ''s'')) [] =
     [CHR 0x01, CHR ''a'', CHR 0x02, CHR ''b'', CHR ''s'']"
  "Array_join (signatureData control_platform control_params_swapped (JString ''s'')) [] =
     [CHR 0x02, CHR ''b'', CHR 0x01, CHR ''a'', CHR ''s'']"
  unfolding signatureData_def Object_entries_def control_sorted Array_join_flat
  by (simp_all add: signed_text_def control_params_def control_params_swapped_def)

section \<open>Claims about the signature engine\<close>

text \<open>
  Claim C1. For every parameter object \<open>P\<close> and secret \<open>S\<close>, the signature is the
  lowercase hexadecimal rendering (32 digits) of the 128-bit MD5 digest of the text made
  of \<open>P\<close>'s entries sorted ascending by key, each key immediately followed by its value,
  with \<open>S\<close> appended. The collation is assumed to be a consistent comparator on the keys
  of \<open>P\<close>; the sorted entries are a rearrangement of \<open>P\<close>.
\<close>

theorem createSignature_spec:
  assumes "consistent_comparator_on (fst ` set P) (localeCompare pf)"
  shows "mset (Array_sort (by_key pf) (Object_entries P)) = mset P
       \<and> ascending_by_key pf (Array_sort (by_key pf) (Object_entries P))
       \<and> createSignature pf P (JString S) =
           digest_hex (createHash_md5 pf (signed_text (Array_sort (by_key pf) (Object_entries P)) S))
       \<and> length (createSignature pf P (JString S)) = 32
       \<and> set (createSignature pf P (JString S)) \<subseteq> set ''0123456789abcdef''"
proof -
  have "sorted_wrt (\<lambda>a b. by_key pf a b \<le> 0) (Array_sort (by_key pf) P)"
    by (rule sorted_Array_sort [OF by_key_preorder [OF assms]])
  then have asc: "ascending_by_key pf (Array_sort (by_key pf) (Object_entries P))"
    by (simp add: ascending_by_key_def by_key_eq Object_entries_def)
  have sig: "createSignature pf P (JString S) =
      digest_hex (createHash_md5 pf (signed_text (Array_sort (by_key pf) (Object_entries P)) S))"
    by (simp add: createSignature_def signatureData_def md5_def Array_join_flat)
  show ?thesis
    using asc sig length_digest_hex set_digest_hex
    by (simp add: mset_Array_sort Object_entries_def)
qed

theorem createSignature_spec_witness:
  "consistent_comparator_on
     (fst ` set [(''method'', JString ''track.scrobble''), (''api_key'', JString ''key''),
                 (''timestamp'', JNumber 1699999910)])
     (localeCompare sample_platform)
   \<and> createSignature sample_platform
       [(''method'', JString ''track.scrobble''), (''api_key'', JString ''key''),
        (''timestamp'', JNumber 1699999910)] (JString ''secret'')
     = digest_hex (createHash_md5 sample_platform
         ''api_keykeymethodtrack.scrobbletimestamp1699999910secret'')"
proof -
  have h: "consistent_comparator_on
     (fst ` set [(''method'', JString ''track.scrobble''), (''api_key'', JString ''key''),
                 (''timestamp'', JNumber 1699999910)])
     (localeCompare sample_platform)"
    using compare_units_linear by (simp add: linear_order_on_keys_def localeCompare_sample)
  have n: "Number_toString 1699999910 = ''1699999910''"
    by (simp add: Number_toString_def digits10.simps)
  have "createSignature sample_platform
       [(''method'', JString ''track.scrobble''), (''api_key'', JString ''key''),
        (''timestamp'', JNumber 1699999910)] (JString ''secret'')
     = digest_hex (createHash_md5 sample_platform
         ''api_keykeymethodtrack.scrobbletimestamp1699999910secret'')"
    using createSignature_spec [OF h, of "''secret''"]
    by (simp add: Object_entries_def sorted_sample signed_text_def n)
  with h show ?thesis by (rule conjI)
qed


text \<open>
  Claim C2, amended. The signature does not depend on the order in which the entries of
  the parameter object are given, provided the collation never reports two different
  keys of the object as equal: any rearrangement \<open>P'\<close> of an object \<open>P\<close> with distinct
  keys has the same signature, for a collation that orders the keys of \<open>P\<close> linearly.
\<close>

theorem createSignature_reorder:
  assumes "distinct (map fst P)"
    and "mset P' = mset P"
    and "linear_order_on_keys (fst ` set P) (localeCompare pf)"
  shows "createSignature pf P' S = createSignature pf P S"
proof -
  have tp: "consistent_comparator_on (fst ` set P) (localeCompare pf)"
    using assms(3) by (simp add: linear_order_on_keys_def)
  have sets: "set P' = set P"
    using assms(2) by (rule mset_eq_setD)
  have s1: "sorted_wrt (\<lambda>a b. by_key pf a b \<le> 0) (Array_sort (by_key pf) P)"
    by (rule sorted_Array_sort [OF by_key_preorder [OF tp]])
  have s2: "sorted_wrt (\<lambda>a b. by_key pf a b \<le> 0) (Array_sort (by_key pf) P')"
    by (rule sorted_Array_sort [OF by_key_preorder]) (simp add: sets tp)
  have anti: "\<forall>a\<in>set (Array_sort (by_key pf) P'). \<forall>b\<in>set (Array_sort (by_key pf) P').
      by_key pf a b \<le> 0 \<longrightarrow> by_key pf b a \<le> 0 \<longrightarrow> a = b"
  proof (intro ballI impI)
    fix a b
    assume "a \<in> set (Array_sort (by_key pf) P')" "b \<in> set (Array_sort (by_key pf) P')"
      and ab: "by_key pf a b \<le> 0" and ba: "by_key pf b a \<le> 0"
    then have a: "a \<in> set P" and b: "b \<in> set P"
      by (simp_all add: set_Array_sort sets)
    then have k: "fst a \<in> fst ` set P" "fst b \<in> fst ` set P" by simp_all
    have "localeCompare pf (fst a) (fst b) = 0"
      by (rule consistent_comparator_onD0 [OF tp k]) (use ab ba in \<open>simp_all add: by_key_eq\<close>)
    with assms(3) k have "fst a = fst b"
      unfolding linear_order_on_keys_def by blast
    with assms(1) a b show "a = b"
      by (metis distinct_map inj_onD)
  qed
  have "Array_sort (by_key pf) P' = Array_sort (by_key pf) P"
    by (rule sorted_wrt_unique [OF s2 s1 _ anti]) (simp add: mset_Array_sort assms(2))
  then show ?thesis
    by (simp add: createSignature_def signatureData_def Object_entries_def)
qed

theorem createSignature_reorder_witness:
  "distinct (map fst [(''method'', JString ''track.scrobble''), (''api_key'', JString ''key''),
                      (''sk'', JString ''session'')])
   \<and> mset [(''sk'', JString ''session''), (''method'', JString ''track.scrobble''),
            (''api_key'', JString ''key'')]
     = mset [(''method'', JString ''track.scrobble''), (''api_key'', JString ''key''),
             (''sk'', JString ''session'')]
   \<and> linear_order_on_keys
       (fst ` set [(''method'', JString ''track.scrobble''), (''api_key'', JString ''key''),
                   (''sk'', JString ''session'')])
       (localeCompare sample_platform)
   \<and> createSignature sample_platform
       [(''sk'', JString ''session''), (''method'', JString ''track.scrobble''),
        (''api_key'', JString ''key'')] (JString ''secret'')
     = createSignature sample_platform
       [(''method'', JString ''track.scrobble''), (''api_key'', JString ''key''),
        (''sk'', JString ''session'')] (JString ''secret'')"
proof -
  have d: "distinct (map fst [(''method'', JString ''track.scrobble''), (''api_key'', JString ''key''),
                      (''sk'', JString ''session'')])"
    by simp
  have m: "mset [(''sk'', JString ''session''), (''method'', JString ''track.scrobble''),
            (''api_key'', JString ''key'')]
     = mset [(''method'', JString ''track.scrobble''), (''api_key'', JString ''key''),
             (''sk'', JString ''session'')]"
    by simp
  have l: "linear_order_on_keys
       (fst ` set [(''method'', JString ''track.scrobble''), (''api_key'', JString ''key''),
                   (''sk'', JString ''session'')])
       (localeCompare sample_platform)"
    unfolding localeCompare_sample by (rule compare_units_linear)
  from createSignature_reorder [OF d m l, of "JString ''secret''"]
  show ?thesis using d m l by (intro conjI)
qed

text \<open>
  Claim C2 as stated, for every parameter object, fails. The collation gives the keys
  U+0001 and U+0002 the same weight (it is a consistent comparator on them all the
  same), the stable sort leaves entries with tied keys in the order in which the object
  lists them, and the two orders give different texts to sign: the signature of the
  object with the entries swapped is another one.
\<close>

theorem createSignature_order_dependent:
  "distinct (map fst control_params)
   \<and> consistent_comparator_on (fst ` set control_params) (localeCompare control_platform)
   \<and> localeCompare control_platform [CHR 0x01] [CHR 0x02] = 0
   \<and> mset control_params_swapped = mset control_params
   \<and> createSignature control_platform control_params (JString ''s'')
       = ''5f209ddf3d1b1b3dfd8b1c11fd850cef''
   \<and> createSignature control_platform control_params_swapped (JString ''s'')
       = ''64e65d8a87756df79aa806393a8a56db''
   \<and> createSignature control_platform control_params_swapped (JString ''s'')
       \<noteq> createSignature control_platform control_params (JString ''s'')"
proof -
  have m: "mset control_params_swapped = mset control_params"
    by (simp add: control_params_def control_params_swapped_def)
  have d: "createHash_md5 control_platform = md5_digest"
    by (simp add: control_platform_def)
  have a: "createSignature control_platform control_params (JString ''s'')
       = ''5f209ddf3d1b1b3dfd8b1c11fd850cef''"
    unfolding createSignature_def md5_def control_texts d by (rule md5_hex_forward)
  have b: "createSignature control_platform control_params_swapped (JString ''s'')
       = ''64e65d8a87756df79aa806393a8a56db''"
    unfolding createSignature_def md5_def control_texts d by (rule md5_hex_backward)
  have "createSignature control_platform control_params_swapped (JString ''s'')
       \<noteq> createSignature control_platform control_params (JString ''s'')"
    unfolding a b by simp
  moreover have "distinct (map fst control_params)"
    by (simp add: control_params_def)
  moreover have "localeCompare control_platform [CHR 0x01] [CHR 0x02] = 0"
    by (simp add: control_platform_def control_ties)
  ultimately show ?thesis
    using m a b control_consistent by blast
qed

section \<open>Properties of the script, continued\<close>

lemma credentials_given_iff: "credentials_given v \<longleftrightarrow> missing_required v = None"
  by (simp add: credentials_given_def missing_required_iff)

lemma main_help: "help_flag v \<Longrightarrow> main w v pos = (printHelp, Exit 0)"
  by (simp add: main_def)

lemma main_missing:
  "\<not> help_flag v \<Longrightarrow> missing_required v = Some param \<Longrightarrow>
     main w v pos = ([Stderr (''Error: '' @ param @ '' is required'' @ newline)], Exit 1)"
  by (simp add: main_def)

lemma main_try_ok:
  "\<not> help_flag v \<Longrightarrow> credentials_given v \<Longrightarrow> try_block w v pos = (es, Inr u) \<Longrightarrow>
     main w v pos = (es, Completed)"
  by (simp add: main_def credentials_given_iff)

lemma main_try_fails:
  "\<not> help_flag v \<Longrightarrow> credentials_given v \<Longrightarrow> try_block w v pos = (es, Inl m) \<Longrightarrow>
     main w v pos =
       (es @ [Stderr (''Error: '' @ m @ newline)], if debug v then Uncaught m else Exit 1)"
  by (simp add: main_def credentials_given_iff)

lemma snd_getAuthToken:
  "snd (getAuthToken w v) =
     (case auth_reply w of
        Rejected m \<Rightarrow> Inl m
      | Json data \<Rightarrow>
          if truthy (data_error data)
          then Inl (''Last.fm authentication error: '' @ ToString (data_message data))
          else (case data_session_key data of
                  None \<Rightarrow> Inl undefined_key_message
                | Some key \<Rightarrow> Inr key))"
proof (cases "auth_reply w")
  case (Rejected m)
  then show ?thesis by (simp add: getAuthToken_def lastFmRequest_def bind_io_def)
next
  case (Json data)
  then show ?thesis
    by (cases "data_session_key data")
       (simp_all add: getAuthToken_def lastFmRequest_def bind_io_def)
qed

lemma plain_events [simp]:
  "\<not> is_auth (Stdout s)" "\<not> is_auth (Stderr s)" "\<not> is_auth (ReadFile s)"
  "\<not> is_auth ReadStdin" "\<not> is_auth (Timeout n)"
  "\<not> is_scrobble (Stdout s)" "\<not> is_scrobble (Stderr s)" "\<not> is_scrobble (ReadFile s)"
  "\<not> is_scrobble ReadStdin" "\<not> is_scrobble (Timeout n)"
  "\<not> is_timeout (Stdout s)" "\<not> is_timeout (Stderr s)" "\<not> is_timeout (ReadFile s)"
  "\<not> is_timeout ReadStdin" "is_timeout (Timeout n)" "\<not> is_timeout (Post b)"
  by (simp_all add: is_auth_def is_scrobble_def is_timeout_def post_method_def)

lemma auth_request_kind [simp]:
  "is_auth (auth_request w v)" "\<not> is_scrobble (auth_request w v)"
  "\<not> is_timeout (auth_request w v)"
  by (simp_all add: auth_request_def is_auth_def is_scrobble_def post_method_def
      request_body_def auth_params_def)

lemma submission_kind [simp]:
  "is_scrobble (submission w v sk rs i)" "\<not> is_auth (submission w v sk rs i)"
  "\<not> is_timeout (submission w v sk rs i)"
  by (cases "resolve (header v) (rs ! i)";
      simp add: submission_def is_auth_def is_scrobble_def post_method_def
        request_body_def scrobble_params_def)+

lemma readInput_events [simp]:
  "filter is_auth (fst (readInput w pos)) = []"
  "filter is_scrobble (fst (readInput w pos)) = []"
  "filter is_timeout (fst (readInput w pos)) = []"
  by (simp_all add: readInput_def)

lemma row_trace_auth [simp]: "filter is_auth (row_trace w v sk rs i) = []"
  by (cases "resolve (header v) (rs ! i)") (simp add: row_trace_def)

lemma row_trace_scrobble:
  "filter is_scrobble (row_trace w v sk rs i) =
     (if resolved v (rs ! i) then [submission w v sk rs i] else [])"
  by (cases "resolve (header v) (rs ! i)") (simp add: row_trace_def)

lemma row_trace_timeout:
  "filter is_timeout (row_trace w v sk rs i) =
     (if row_succeeds w v rs i then [Timeout 200] else [])"
  by (cases "resolve (header v) (rs ! i)") (simp add: row_trace_def row_succeeds_def)

lemma concat_map_if:
  "concat (map (\<lambda>i. if c i then [g i] else []) xs) = map g (filter c xs)"
  by (induction xs) simp_all

lemma concat_map_Nil: "concat (map (\<lambda>i. []) xs) = []"
  by (induction xs) simp_all

lemma loop_trace_auth [simp]:
  "filter is_auth (concat (map (row_trace w v sk rs) xs)) = []"
  by (simp add: filter_concat comp_def concat_map_Nil)

lemma loop_trace_scrobble:
  "filter is_scrobble (concat (map (row_trace w v sk rs) xs)) =
     map (submission w v sk rs) (filter (\<lambda>i. resolved v (rs ! i)) xs)"
  by (simp add: filter_concat comp_def row_trace_scrobble concat_map_if)

lemma loop_trace_timeout:
  "filter is_timeout (concat (map (row_trace w v sk rs) xs)) =
     replicate (length (filter (row_succeeds w v rs) xs)) (Timeout 200)"
  by (simp add: filter_concat comp_def row_trace_timeout concat_map_if map_replicate_const)


lemma scrobble_before_index:
  assumes t: "t = a0 # a1 # rest"
    and "\<not> is_scrobble a0" "\<not> is_scrobble a1" "\<not> is_auth a0" "is_auth a1"
    and rest: "filter is_auth rest = []"
    and j: "j < length t" and s: "is_scrobble (t ! j)"
  shows "filter is_auth (take j t) = [a1]"
proof -
  obtain k where k: "j = Suc (Suc k)"
  proof (cases j)
    case 0
    with s t assms(2) show ?thesis by simp
  next
    case (Suc j')
    show ?thesis
    proof (cases j')
      case 0
      with Suc s t assms(3) show ?thesis by simp
    next
      case (Suc k)
      with \<open>j = Suc j'\<close> that show ?thesis by simp
    qed
  qed
  have "\<forall>x\<in>set rest. \<not> is_auth x"
    using rest by (simp add: filter_empty_conv)
  then have "\<forall>x\<in>set (take k rest). \<not> is_auth x"
    by (meson in_set_takeD)
  then have "filter is_auth (take k rest) = []"
    by (simp add: filter_empty_conv)
  then show ?thesis
    using assms(4,5) by (simp add: t k)
qed

lemma main_auth_fails:
  assumes "\<not> help_flag v" "credentials_given v" "snd (getAuthToken w v) = Inl m"
  shows "main w v pos =
    ([Stdout (''Authenticating with Last.fm...'' @ newline), auth_request w v,
      Stderr (''Error: '' @ m @ newline)], if debug v then Uncaught m else Exit 1)"
  using main_try_fails [OF assms(1,2) try_block_auth_fails [OF assms(3)]] by simp

lemma main_read_fails:
  assumes "\<not> help_flag v" "credentials_given v"
    and "snd (getAuthToken w v) = Inr sk" "snd (readInput w pos) = Inl m"
  shows "main w v pos =
    (Stdout (''Authenticating with Last.fm...'' @ newline) # auth_request w v #
       (Stdout (''Authentication successful'' @ newline) # fst (readInput w pos)
         @ [Stderr (''Error: '' @ m @ newline)]),
     if debug v then Uncaught m else Exit 1)"
  using main_try_fails [OF assms(1,2) try_block_read_fails [OF assms(3,4)]] by simp

lemma main_parse_fails:
  assumes "\<not> help_flag v" "credentials_given v"
    and "snd (getAuthToken w v) = Inr sk" "snd (readInput w pos) = Inr csvData"
    and "csv_parse w csvData (delimiter v) (header v) = Inl m"
  shows "main w v pos =
    (Stdout (''Authenticating with Last.fm...'' @ newline) # auth_request w v #
       (Stdout (''Authentication successful'' @ newline) # fst (readInput w pos)
         @ [Stderr (''Error: '' @ m @ newline)]),
     if debug v then Uncaught m else Exit 1)"
  using main_try_fails [OF assms(1,2) try_block_parse_fails [OF assms(3,4,5)]] by simp

lemma main_loop:
  assumes "\<not> help_flag v" "credentials_given v"
    and "snd (getAuthToken w v) = Inr sk" "snd (readInput w pos) = Inr csvData"
    and "csv_parse w csvData (delimiter v) (header v) = Inr rs"
  shows "main w v pos =
    (Stdout (''Authenticating with Last.fm...'' @ newline) # auth_request w v #
       (Stdout (''Authentication successful'' @ newline) # fst (readInput w pos)
         @ [Stdout (''Found '' @ Number_toString (int (length rs)) @ '' tracks to scrobble'' @ newline)]
         @ concat (map (row_trace w v sk rs) [0..<length rs])
         @ [Stdout (summary (successes w v rs) (failures w v rs))]),
     Completed)"
  using main_try_ok [OF assms(1,2) try_block_loop [OF assms(3,4,5)]] by simp

text \<open>Every run that gets past the argument checks starts with the login.\<close>

lemma main_trace_shape:
  assumes h: "\<not> help_flag v" and c: "credentials_given v"
  obtains rest where
    "fst (main w v pos) =
       Stdout (''Authenticating with Last.fm...'' @ newline) # auth_request w v # rest"
    "filter is_auth rest = []"
    "\<And>m. snd (getAuthToken w v) = Inl m \<Longrightarrow> filter is_scrobble rest = []"
proof (cases rule: top_level_failure_cases [of w v pos])
  case (auth m)
  show ?thesis
    by (rule that [of "[Stderr (''Error: '' @ m @ newline)]"])
       (simp_all add: main_auth_fails [OF h c auth(1)])
next
  case (read sk m)
  show ?thesis
    by (rule that [of "Stdout (''Authentication successful'' @ newline) # fst (readInput w pos)
         @ [Stderr (''Error: '' @ m @ newline)]"])
       (simp_all add: main_read_fails [OF h c read(1,2)] read(1))
next
  case (parse sk csvData m)
  show ?thesis
    by (rule that [of "Stdout (''Authentication successful'' @ newline) # fst (readInput w pos)
         @ [Stderr (''Error: '' @ m @ newline)]"])
       (simp_all add: main_parse_fails [OF h c parse(1,2,3)] parse(1))
next
  case (loop sk csvData rs)
  show ?thesis
    by (rule that [of "Stdout (''Authentication successful'' @ newline) # fst (readInput w pos)
         @ [Stdout (''Found '' @ Number_toString (int (length rs)) @ '' tracks to scrobble'' @ newline)]
         @ concat (map (row_trace w v sk rs) [0..<length rs])
         @ [Stdout (summary (successes w v rs) (failures w v rs))]"])
       (simp_all add: main_loop [OF h c loop(1,2,3)] loop(1))
qed

lemma main_no_requests:
  assumes "help_flag v \<or> \<not> credentials_given v"
  shows "filter is_auth (fst (main w v pos)) = [] \<and> filter is_scrobble (fst (main w v pos)) = []
    \<and> filter is_timeout (fst (main w v pos)) = []"
proof (cases "help_flag v")
  case True
  then show ?thesis by (simp add: main_help printHelp_def)
next
  case False
  with assms obtain param where "missing_required v = Some param"
    by (auto simp: credentials_given_iff)
  with False show ?thesis by (simp add: main_missing)
qed

lemma last_main_loop:
  assumes "\<not> help_flag v" "credentials_given v"
    and "snd (getAuthToken w v) = Inr sk" "snd (readInput w pos) = Inr csvData"
    and "csv_parse w csvData (delimiter v) (header v) = Inr rs"
  shows "last (fst (main w v pos)) = Stdout (summary (successes w v rs) (failures w v rs))"
  by (simp add: main_loop [OF assms])

lemma scrobble_main_loop:
  assumes "\<not> help_flag v" "credentials_given v"
    and "snd (getAuthToken w v) = Inr sk" "snd (readInput w pos) = Inr csvData"
    and "csv_parse w csvData (delimiter v) (header v) = Inr rs"
  shows "filter is_scrobble (fst (main w v pos)) =
     map (submission w v sk rs) (filter (\<lambda>i. resolved v (rs ! i)) [0..<length rs])"
  by (simp add: main_loop [OF assms] loop_trace_scrobble)

lemma timeout_main_loop:
  assumes "\<not> help_flag v" "credentials_given v"
    and "snd (getAuthToken w v) = Inr sk" "snd (readInput w pos) = Inr csvData"
    and "csv_parse w csvData (delimiter v) (header v) = Inr rs"
  shows "filter is_timeout (fst (main w v pos)) = replicate (successes w v rs) (Timeout 200)"
  by (simp add: main_loop [OF assms] loop_trace_timeout successes_def)

lemma timeout_main_fails:
  assumes "\<not> help_flag v" "credentials_given v" "top_level_failure w v pos = Some m"
  shows "filter is_timeout (fst (main w v pos)) = []"
proof (cases rule: top_level_failure_cases [of w v pos])
  case (auth m')
  then show ?thesis by (simp add: main_auth_fails [OF assms(1,2)])
next
  case (read sk m')
  then show ?thesis by (simp add: main_read_fails [OF assms(1,2)])
next
  case (parse sk csvData m')
  then show ?thesis by (simp add: main_parse_fails [OF assms(1,2)])
next
  case (loop sk csvData rs)
  with assms(3) show ?thesis by simp
qed

lemma upt_3: "[0..<3] = [0, 1, 2]"
  by (simp add: upt_rec)

lemma summary_2_1: "summary 2 1 = newline @ ''Scrobbling complete: 2 successful, 1 failed'' @ newline"
  by (simp add: summary_def Number_toString_def digits10.simps)

lemma scrobble_loop_step:
  assumes "i < length rs"
  shows "scrobble_loop w v sk rs i sc ec =
     (fst (loop_body w v sk rs i sc ec)
        @ fst (scrobble_loop w v sk rs (i + 1) (fst (snd (loop_body w v sk rs i sc ec)))
                 (snd (snd (loop_body w v sk rs i sc ec)))),
      snd (scrobble_loop w v sk rs (i + 1) (fst (snd (loop_body w v sk rs i sc ec)))
                 (snd (snd (loop_body w v sk rs i sc ec)))))"
  using assms
  by (subst scrobble_loop.simps) (simp add: split_beta)

lemma submitted_timestamp_submission:
  "submitted_timestamp (submission w v sk rs i) =
     Some (Number_toString (timestamp_at w (length rs) i))"
  by (cases "resolve (header v) (rs ! i)")
     (simp add: submitted_timestamp_def submission_def request_body_def scrobble_params_def)

lemma submission_in_loop:
  assumes "i < length rs" "resolved v (rs ! i)"
  shows "submission w v sk rs i \<in> set (fst (scrobble_loop w v sk rs 0 0 0))"
proof -
  have "submission w v sk rs i \<in> set (row_trace w v sk rs i)"
    using assms(2) by (cases "resolve (header v) (rs ! i)") (simp add: row_trace_def)
  moreover have "i \<in> set [0..<length rs]" using assms(1) by simp
  ultimately show ?thesis
    unfolding scrobble_loop_eq by (simp del: set_upt) blast
qed

lemma first_match_Nil: "first_match r [] = None"
  by (simp add: first_match_def)

lemma first_match_Cons:
  "first_match r (n # ns) =
     (if truthy (property r n)
      then (case property r n of JString s \<Rightarrow> Some s | _ \<Rightarrow> None)
      else first_match r ns)"
  by (simp add: first_match_def)

lemma property_truthy:
  assumes "truthy (property r n)"
  obtains s where "property r n = JString s" "s \<noteq> []"
proof (cases r)
  case (Fields xs)
  with assms show ?thesis by (simp add: property_def)
next
  case (Columns kvs)
  with assms that show ?thesis
    by (cases "map_of kvs n") (simp_all add: property_def)
qed

lemma sample_args: "\<not> help_flag sample_values" "credentials_given sample_values"
  by (simp_all add: sample_values_def credentials_given_def)

lemma sample_auth: "snd (getAuthToken sample_world sample_values) = Inr (JString ''session'')"
  by (simp add: snd_getAuthToken sample_world_def)

lemma sample_read: "readInput sample_world [] = ([ReadStdin], Inr [])"
  by (simp add: readInput_def sample_world_def)

lemma sample_parse:
  "csv_parse sample_world [] (delimiter sample_values) (header sample_values) = Inr sample_records"
  by (simp add: sample_world_def)

lemma sample_length: "length sample_records = 3"
  by (simp add: sample_records_def)

lemma sample_resolved:
  "resolved sample_values (sample_records ! 0)"
  "resolved sample_values (sample_records ! 1)"
  "resolved sample_values (sample_records ! 2)"
  by (simp_all add: resolved_def resolve_def sample_values_def sample_records_def
      Object_values_def at_index_def)

lemma sample_accepted:
  "accepted (scrobble_reply sample_world 0)"
  "\<not> accepted (scrobble_reply sample_world 1)"
  "accepted (scrobble_reply sample_world 2)"
  by (simp_all add: accepted_def sample_world_def)

lemma sample_rows:
  "row_succeeds sample_world sample_values sample_records 0"
  "\<not> row_succeeds sample_world sample_values sample_records 1"
  "row_succeeds sample_world sample_values sample_records 2"
  unfolding row_succeeds_def using sample_resolved sample_accepted by blast+

lemma sample_tallies:
  "successes sample_world sample_values sample_records = 2"
  "failures sample_world sample_values sample_records = 1"
  using sample_rows by (simp_all add: successes_def failures_def sample_length upt_3)

lemma sample_failing_auth:
  "snd (getAuthToken (sample_world\<lparr>auth_reply := Rejected ''fetch failed''\<rparr>) sample_values)
     = Inl ''fetch failed''"
  by (simp add: snd_getAuthToken)

section \<open>Claims about the run\<close>

text \<open>
  Claim C3. A run that gets past the argument checks sends the authentication request
  exactly once (a run that stops at the help text or at a missing flag sends none and
  submits nothing). Wherever a submission occurs in a run, authentication has returned a
  session key and the events before the submission hold exactly one authentication
  request. When authentication throws, the run consists of the greeting, the
  authentication request and the error message on the error stream: no submission is
  issued and no row is processed.
\<close>

theorem authenticate_once_before_submitting:
  "(\<not> help_flag v \<and> credentials_given v \<longrightarrow>
      filter is_auth (fst (main w v pos)) = [auth_request w v])
   \<and> (help_flag v \<or> \<not> credentials_given v \<longrightarrow>
      filter is_auth (fst (main w v pos)) = [] \<and> filter is_scrobble (fst (main w v pos)) = [])
   \<and> (\<forall>j < length (fst (main w v pos)). is_scrobble (fst (main w v pos) ! j) \<longrightarrow>
        (\<exists>sessionKey. snd (getAuthToken w v) = Inr sessionKey)
        \<and> filter is_auth (take j (fst (main w v pos))) = [auth_request w v])
   \<and> (\<forall>m. \<not> help_flag v \<longrightarrow> credentials_given v \<longrightarrow> snd (getAuthToken w v) = Inl m \<longrightarrow>
        fst (main w v pos) =
          [Stdout (''Authenticating with Last.fm...'' @ newline), auth_request w v,
           Stderr (''Error: '' @ m @ newline)])"
proof (intro conjI impI allI)
  assume "\<not> help_flag v \<and> credentials_given v"
  then have h: "\<not> help_flag v" and c: "credentials_given v" by simp_all
  from main_trace_shape [OF h c, of w pos] obtain rest where
    "fst (main w v pos) =
       Stdout (''Authenticating with Last.fm...'' @ newline) # auth_request w v # rest"
    "filter is_auth rest = []" by blast
  then show "filter is_auth (fst (main w v pos)) = [auth_request w v]" by simp
next
  assume a: "help_flag v \<or> \<not> credentials_given v"
  from main_no_requests [OF a, of w pos]
  show "filter is_auth (fst (main w v pos)) = []"
    and "filter is_scrobble (fst (main w v pos)) = []" by simp_all
next
  fix j
  assume j: "j < length (fst (main w v pos))" and s: "is_scrobble (fst (main w v pos) ! j)"
  have in_set: "fst (main w v pos) ! j \<in> set (fst (main w v pos))"
    using j by simp
  have some: "filter is_scrobble (fst (main w v pos)) \<noteq> []"
    using in_set s by (simp add: filter_empty_conv) blast
  have h: "\<not> help_flag v" and c: "credentials_given v"
    using main_no_requests [of v w pos] some by blast+
  from main_trace_shape [OF h c, of w pos] obtain rest where
    t: "fst (main w v pos) =
       Stdout (''Authenticating with Last.fm...'' @ newline) # auth_request w v # rest"
    and na: "filter is_auth rest = []"
    and ns: "\<And>m. snd (getAuthToken w v) = Inl m \<Longrightarrow> filter is_scrobble rest = []" by blast
  show "\<exists>sessionKey. snd (getAuthToken w v) = Inr sessionKey"
  proof (cases "snd (getAuthToken w v)")
    case (Inl m)
    from ns [OF Inl] have "filter is_scrobble (fst (main w v pos)) = []"
      by (simp add: t)
    with some show ?thesis by simp
  next
    case (Inr sk)
    then show ?thesis by blast
  qed
  show "filter is_auth (take j (fst (main w v pos))) = [auth_request w v]"
    by (rule scrobble_before_index [OF t _ _ _ _ na j s]) simp_all
next
  fix m
  assume "\<not> help_flag v" "credentials_given v" "snd (getAuthToken w v) = Inl m"
  then show "fst (main w v pos) =
          [Stdout (''Authenticating with Last.fm...'' @ newline), auth_request w v,
           Stderr (''Error: '' @ m @ newline)]"
    by (simp add: main_auth_fails)
qed

theorem authenticate_once_before_submitting_witness:
  "(\<not> help_flag sample_values \<and> credentials_given sample_values)
   \<and> filter is_auth (fst (main sample_world sample_values []))
       = [auth_request sample_world sample_values]
   \<and> filter is_auth (fst (main sample_world (sample_values\<lparr>help_flag := True\<rparr>) [])) = []
   \<and> snd (getAuthToken (sample_world\<lparr>auth_reply := Rejected ''fetch failed''\<rparr>) sample_values)
       = Inl ''fetch failed''
   \<and> fst (main (sample_world\<lparr>auth_reply := Rejected ''fetch failed''\<rparr>) sample_values []) =
       [Stdout (''Authenticating with Last.fm...'' @ newline),
        auth_request (sample_world\<lparr>auth_reply := Rejected ''fetch failed''\<rparr>) sample_values,
        Stderr (''Error: fetch failed'' @ newline)]"
proof -
  note t1 = authenticate_once_before_submitting [of sample_values sample_world "[]"]
  note t2 = authenticate_once_before_submitting
    [of "sample_values\<lparr>help_flag := True\<rparr>" sample_world "[]"]
  note t3 = authenticate_once_before_submitting
    [of sample_values "sample_world\<lparr>auth_reply := Rejected ''fetch failed''\<rparr>" "[]"]
  have a: "filter is_auth (fst (main sample_world sample_values []))
       = [auth_request sample_world sample_values]"
    using t1 sample_args by blast
  have b: "filter is_auth (fst (main sample_world (sample_values\<lparr>help_flag := True\<rparr>) [])) = []"
    using t2 by simp
  have c: "fst (main (sample_world\<lparr>auth_reply := Rejected ''fetch failed''\<rparr>) sample_values []) =
       [Stdout (''Authenticating with Last.fm...'' @ newline),
        auth_request (sample_world\<lparr>auth_reply := Rejected ''fetch failed''\<rparr>) sample_values,
        Stderr (''Error: '' @ ''fetch failed'' @ newline)]"
    using t3 sample_args sample_failing_auth by blast
  show ?thesis
    using a b c sample_args sample_failing_auth by simp
qed

text \<open>
  Claim C4, amended. In a run over \<open>N\<close> records, the request that submits row \<open>i\<close>
  (0-based) carries as timestamp the clock in whole seconds, as read for that row, minus
  \<open>(N - i) * 30\<close>, and that timestamp is strictly less than the clock reading. The
  timestamp of row \<open>i\<close> is less than that of row \<open>i + 1\<close> exactly when the clock, in
  whole seconds, read for row \<open>i + 1\<close> is more than the reading for row \<open>i\<close> minus 30;
  in particular whenever the clock has not gone backwards between the two rows.
\<close>

theorem timestamps_back_dated:
  "(i < length rs \<longrightarrow> resolved v (rs ! i) \<longrightarrow>
      submission w v sk rs i \<in> set (fst (scrobble_loop w v sk rs 0 0 0))
      \<and> submitted_timestamp (submission w v sk rs i) =
          Some (Number_toString (Date_now w i div 1000 - (int (length rs) - int i) * 30)))
   \<and> (i < n \<longrightarrow> timestamp_at w n i < Date_now w i div 1000
                \<and> timestamp_at w n i * 1000 < Date_now w i)
   \<and> (timestamp_at w n i < timestamp_at w n (i + 1)
        \<longleftrightarrow> Date_now w i div 1000 < Date_now w (i + 1) div 1000 + 30)
   \<and> (Date_now w i \<le> Date_now w (i + 1) \<longrightarrow>
        timestamp_at w n i < timestamp_at w n (i + 1))"
proof (intro conjI impI)
  assume "i < length rs" "resolved v (rs ! i)"
  then show "submission w v sk rs i \<in> set (fst (scrobble_loop w v sk rs 0 0 0))"
    by (rule submission_in_loop)
  show "submitted_timestamp (submission w v sk rs i) =
          Some (Number_toString (Date_now w i div 1000 - (int (length rs) - int i) * 30))"
    by (simp add: submitted_timestamp_submission timestamp_at_def)
next
  assume i: "i < n"
  then have d: "1 \<le> int n - int i" by simp
  then have "30 \<le> (int n - int i) * 30" by simp
  then show lt: "timestamp_at w n i < Date_now w i div 1000"
    by (simp add: timestamp_at_def)
  have "Date_now w i div 1000 * 1000 \<le> Date_now w i"
    using div_mult_mod_eq [of "Date_now w i" 1000] pos_mod_sign [of 1000 "Date_now w i"]
    by linarith
  with lt show "timestamp_at w n i * 1000 < Date_now w i" by linarith
next
  show "timestamp_at w n i < timestamp_at w n (i + 1)
        \<longleftrightarrow> Date_now w i div 1000 < Date_now w (i + 1) div 1000 + 30"
    by (simp add: timestamp_at_def algebra_simps)
next
  assume m: "Date_now w i \<le> Date_now w (i + 1)"
  have "Date_now w i div 1000 \<le> Date_now w (i + 1) div 1000"
    using m by (rule zdiv_mono1) simp
  then show "timestamp_at w n i < timestamp_at w n (i + 1)"
    by (simp add: timestamp_at_def)
qed

theorem timestamps_back_dated_witness:
  "0 < length sample_records \<and> resolved sample_values (sample_records ! 0)
   \<and> submitted_timestamp
       (submission sample_world sample_values (JString ''session'') sample_records 0)
       = Some ''1699999910''
   \<and> Date_now sample_world 0 \<le> Date_now sample_world (0 + 1)
   \<and> timestamp_at sample_world 3 0 < timestamp_at sample_world 3 (0 + 1)
   \<and> timestamp_at sample_world 3 0 * 1000 < Date_now sample_world 0"
proof -
  note t = timestamps_back_dated
    [of 0 sample_records sample_values sample_world "JString ''session''" 3]
  have l: "0 < length sample_records" by (simp add: sample_length)
  have m: "Date_now sample_world 0 \<le> Date_now sample_world (0 + 1)"
    by (simp add: sample_world_def)
  have n: "Number_toString (Date_now sample_world 0 div 1000 - (int (length sample_records) - int 0) * 30)
      = ''1699999910''"
    by (simp add: sample_world_def sample_length Number_toString_def digits10.simps)
  have a: "submitted_timestamp
       (submission sample_world sample_values (JString ''session'') sample_records 0)
       = Some ''1699999910''"
    using t l sample_resolved(1) unfolding n by blast
  have b: "timestamp_at sample_world 3 0 < timestamp_at sample_world 3 (0 + 1)"
    using t m by blast
  have c: "timestamp_at sample_world 3 0 * 1000 < Date_now sample_world 0"
    using t by simp
  from l sample_resolved(1) a m b c show ?thesis by blast
qed

text \<open>
  Claim C4 as stated, for every run, fails in its monotonicity part. The clock is read
  anew for every row; when it is set back by 100 seconds after the first of three rows,
  all three rows are submitted and the first carries a later timestamp than the second.
\<close>

lemma backward_args:
  "snd (getAuthToken backward_clock_world sample_values) = Inr (JString ''session'')"
  "snd (readInput backward_clock_world []) = Inr []"
  "csv_parse backward_clock_world [] (delimiter sample_values) (header sample_values)
     = Inr sample_records"
  by (simp_all add: snd_getAuthToken readInput_def backward_clock_world_def sample_world_def)

theorem timestamps_decrease_when_clock_set_back:
  "filter is_scrobble (fst (main backward_clock_world sample_values [])) =
     [submission backward_clock_world sample_values (JString ''session'') sample_records 0,
      submission backward_clock_world sample_values (JString ''session'') sample_records 1,
      submission backward_clock_world sample_values (JString ''session'') sample_records 2]
   \<and> submitted_timestamp
       (submission backward_clock_world sample_values (JString ''session'') sample_records 0)
       = Some ''1700000010''
   \<and> submitted_timestamp
       (submission backward_clock_world sample_values (JString ''session'') sample_records 1)
       = Some ''1699999940''
   \<and> \<not> timestamp_at backward_clock_world (length sample_records) 0
         < timestamp_at backward_clock_world (length sample_records) 1"
proof -
  have s: "filter is_scrobble (fst (main backward_clock_world sample_values [])) =
     map (submission backward_clock_world sample_values (JString ''session'') sample_records)
       (filter (\<lambda>i. resolved sample_values (sample_records ! i)) [0..<length sample_records])"
    by (rule scrobble_main_loop [OF sample_args backward_args])
  have s': "filter is_scrobble (fst (main backward_clock_world sample_values [])) =
     [submission backward_clock_world sample_values (JString ''session'') sample_records 0,
      submission backward_clock_world sample_values (JString ''session'') sample_records 1,
      submission backward_clock_world sample_values (JString ''session'') sample_records 2]"
    unfolding s using sample_resolved by (simp add: sample_length upt_3)
  have t0: "timestamp_at backward_clock_world (length sample_records) 0 = 1700000010"
    by (simp add: timestamp_at_def backward_clock_world_def sample_length)
  have t1: "timestamp_at backward_clock_world (length sample_records) 1 = 1699999940"
    by (simp add: timestamp_at_def backward_clock_world_def sample_length)
  have n0: "Number_toString 1700000010 = ''1700000010''"
    by (simp add: Number_toString_def digits10.simps)
  have n1: "Number_toString 1699999940 = ''1699999940''"
    by (simp add: Number_toString_def digits10.simps)
  have a: "submitted_timestamp
       (submission backward_clock_world sample_values (JString ''session'') sample_records 0)
       = Some ''1700000010''"
    unfolding submitted_timestamp_submission t0 n0 by (rule refl)
  have b: "submitted_timestamp
       (submission backward_clock_world sample_values (JString ''session'') sample_records 1)
       = Some ''1699999940''"
    unfolding submitted_timestamp_submission t1 n1 by (rule refl)
  have c: "\<not> timestamp_at backward_clock_world (length sample_records) 0
         < timestamp_at backward_clock_world (length sample_records) 1"
    unfolding t0 t1 by simp
  from s' a b c show ?thesis by blast
qed

text \<open>
  Claim C5. In header mode the resolved artist is the first match among the fields
  \<open>artist\<close>, \<open>Artist\<close>, and the resolved track the first match among \<open>track\<close>,
  \<open>Track\<close>, \<open>title\<close>, \<open>Title\<close>, in that order, a match being a field that is present
  and not empty; without a match the resolved value is falsy. With the header row
  \<open>Title,Artist\<close> and the data row \<open>Paranoid Android,Radiohead\<close> the artist is
  \<open>Radiohead\<close> and the track is \<open>Paranoid Android\<close>.
\<close>

theorem header_resolution:
  "(case first_match r [''artist'', ''Artist''] of
      Some s \<Rightarrow> fst (resolve True r) = JString s
    | None \<Rightarrow> \<not> truthy (fst (resolve True r)))
   \<and> (case first_match r [''track'', ''Track'', ''title'', ''Title''] of
      Some s \<Rightarrow> snd (resolve True r) = JString s
    | None \<Rightarrow> \<not> truthy (snd (resolve True r)))
   \<and> header_records [[''Title'', ''Artist''], [''Paranoid Android'', ''Radiohead'']] =
       [Columns [(''Title'', ''Paranoid Android''), (''Artist'', ''Radiohead'')]]
   \<and> resolve True (Columns [(''Title'', ''Paranoid Android''), (''Artist'', ''Radiohead'')]) =
       (JString ''Radiohead'', JString ''Paranoid Android'')"
proof (intro conjI)
  show "case first_match r [''artist'', ''Artist''] of
      Some s \<Rightarrow> fst (resolve True r) = JString s
    | None \<Rightarrow> \<not> truthy (fst (resolve True r))"
  proof (cases "truthy (property r ''artist'')")
    case True
    then obtain s where "property r ''artist'' = JString s" "s \<noteq> []"
      by (rule property_truthy)
    then show ?thesis
      by (simp add: first_match_Cons resolve_def js_or_def)
  next
    case a: False
    show ?thesis
    proof (cases "truthy (property r ''Artist'')")
      case True
      then obtain s where "property r ''Artist'' = JString s" "s \<noteq> []"
        by (rule property_truthy)
      with a show ?thesis
        by (simp add: first_match_Cons resolve_def js_or_def)
    next
      case False
      with a show ?thesis
        by (simp add: first_match_Cons first_match_Nil resolve_def js_or_def)
    qed
  qed
next
  show "case first_match r [''track'', ''Track'', ''title'', ''Title''] of
      Some s \<Rightarrow> snd (resolve True r) = JString s
    | None \<Rightarrow> \<not> truthy (snd (resolve True r))"
  proof (cases "truthy (property r ''track'')")
    case True
    then obtain s where "property r ''track'' = JString s" "s \<noteq> []"
      by (rule property_truthy)
    then show ?thesis
      by (simp add: first_match_Cons resolve_def js_or_def)
  next
    case a: False
    show ?thesis
    proof (cases "truthy (property r ''Track'')")
      case True
      then obtain s where "property r ''Track'' = JString s" "s \<noteq> []"
        by (rule property_truthy)
      with a show ?thesis
        by (simp add: first_match_Cons resolve_def js_or_def)
    next
      case b: False
      show ?thesis
      proof (cases "truthy (property r ''title'')")
        case True
        then obtain s where "property r ''title'' = JString s" "s \<noteq> []"
          by (rule property_truthy)
        with a b show ?thesis
          by (simp add: first_match_Cons resolve_def js_or_def)
      next
        case c: False
        show ?thesis
        proof (cases "truthy (property r ''Title'')")
          case True
          then obtain s where "property r ''Title'' = JString s" "s \<noteq> []"
            by (rule property_truthy)
          with a b c show ?thesis
            by (simp add: first_match_Cons resolve_def js_or_def)
        next
          case False
          with a b c show ?thesis
            by (simp add: first_match_Cons first_match_Nil resolve_def js_or_def)
        qed
      qed
    qed
  qed
next
  show "header_records [[''Title'', ''Artist''], [''Paranoid Android'', ''Radiohead'']] =
       [Columns [(''Title'', ''Paranoid Android''), (''Artist'', ''Radiohead'')]]"
    by (simp add: header_records_def)
  show "resolve True (Columns [(''Title'', ''Paranoid Android''), (''Artist'', ''Radiohead'')]) =
       (JString ''Radiohead'', JString ''Paranoid Android'')"
    by (simp add: resolve_def js_or_def property_def)
qed

text \<open>
  A row whose artist or track is falsy: the pass through the loop body writes the
  message with the number \<open>i + 1\<close> to the error stream and nothing else, adds one to the
  error counter, and the loop goes on with row \<open>i + 1\<close>. A row with one column in
  no-header mode has no track, an empty row has no artist.
\<close>

lemma resolution_failure_step:
  "(i < length rs \<longrightarrow>
      \<not> truthy (fst (resolve (header v) (rs ! i))) \<or> \<not> truthy (snd (resolve (header v) (rs ! i))) \<longrightarrow>
        loop_body w v sk rs i sc ec =
          ([Stderr (''Error: Could not determine artist and track from line ''
                     @ Number_toString (int i + 1) @ newline)], sc, ec + 1)
        \<and> scrobble_loop w v sk rs i sc ec =
          (Stderr (''Error: Could not determine artist and track from line ''
                     @ Number_toString (int i + 1) @ newline)
             # fst (scrobble_loop w v sk rs (i + 1) sc (ec + 1)),
           snd (scrobble_loop w v sk rs (i + 1) sc (ec + 1))))
   \<and> \<not> truthy (snd (resolve False (Fields [x])))
   \<and> \<not> truthy (fst (resolve False (Fields [])))"
proof (intro conjI impI)
  assume i: "i < length rs"
    and f: "\<not> truthy (fst (resolve (header v) (rs ! i))) \<or> \<not> truthy (snd (resolve (header v) (rs ! i)))"
  show lb: "loop_body w v sk rs i sc ec =
          ([Stderr (''Error: Could not determine artist and track from line ''
                     @ Number_toString (int i + 1) @ newline)], sc, ec + 1)"
    using f by (cases "resolve (header v) (rs ! i)") (auto simp: loop_body_def line_error_def)
  show "scrobble_loop w v sk rs i sc ec =
          (Stderr (''Error: Could not determine artist and track from line ''
                     @ Number_toString (int i + 1) @ newline)
             # fst (scrobble_loop w v sk rs (i + 1) sc (ec + 1)),
           snd (scrobble_loop w v sk rs (i + 1) sc (ec + 1)))"
    by (simp add: scrobble_loop_step [OF i] lb)
next
  show "\<not> truthy (snd (resolve False (Fields [x])))"
    by (simp add: resolve_def Object_values_def at_index_def)
  show "\<not> truthy (fst (resolve False (Fields [])))"
    by (simp add: resolve_def Object_values_def at_index_def)
qed

lemma header_args:
  "\<not> help_flag header_values" "credentials_given header_values"
  "snd (getAuthToken header_world header_values) = Inr (JString ''session'')"
  "snd (readInput header_world [''tracks.csv'']) = Inr []"
  "csv_parse header_world [] (delimiter header_values) (header header_values)
     = Inr (header_records header_rows)"
  by (simp_all add: snd_getAuthToken readInput_def header_world_def sample_world_def
      header_values_def sample_values_def credentials_given_def)

text \<open>
  Claim C6. The claim has the run report the 1-based line number of a record that does
  not resolve. The number in the message is the index of the record among the parsed
  records plus one. In header mode the first line of the input is the header, and the
  two differ: in the run below the record without an artist comes from the third line
  of the input (it is the second record), and the only message on the error stream
  names line 2.
\<close>

theorem line_number_off_in_header_mode:
  "header_records header_rows ! 1 = Columns (zip (header_rows ! 0) (header_rows ! 2))
   \<and> loop_body header_world header_values (JString ''session'') (header_records header_rows) 1 1 0
       = ([Stderr (''Error: Could not determine artist and track from line 2'' @ newline)], 1, 1)
   \<and> filter is_stderr
         (fst (main header_world header_values [''tracks.csv'']))
       = [Stderr (''Error: Could not determine artist and track from line 2'' @ newline)]"
proof -
  have r: "header_records header_rows =
      [Columns [(''artist'', ''Radiohead''), (''track'', ''Creep'')],
       Columns [(''artist'', ''''), (''track'', ''Roads'')]]"
    by (simp add: header_records_def header_rows_def)
  have a: "header_records header_rows ! 1 = Columns (zip (header_rows ! 0) (header_rows ! 2))"
    by (simp add: header_records_def header_rows_def)
  have n: "Number_toString (int 1 + 1) = ''2''"
    by (simp add: Number_toString_def digits10.simps)
  have f: "\<not> truthy (fst (resolve (header header_values) (header_records header_rows ! 1)))"
    by (simp add: r header_values_def resolve_def js_or_def property_def)
  have "loop_body header_world header_values (JString ''session'') (header_records header_rows) 1 1 0
       = ([Stderr (''Error: Could not determine artist and track from line ''
                     @ Number_toString (int 1 + 1) @ newline)], 1, 0 + 1)"
    using resolution_failure_step
      [of 1 "header_records header_rows" header_values header_world "JString ''session''" 1 0] f
    by (simp add: r)
  then have b: "loop_body header_world header_values (JString ''session'')
        (header_records header_rows) 1 1 0
       = ([Stderr (''Error: Could not determine artist and track from line 2'' @ newline)], 1, 1)"
    unfolding n by simp
  have ok: "resolved header_values (header_records header_rows ! 0)"
    by (simp add: r resolved_def header_values_def resolve_def js_or_def property_def)
  have ko: "\<not> resolved header_values (header_records header_rows ! 1)"
    using f by (simp add: resolved_def split_beta)
  have acc: "accepted (scrobble_reply header_world 0)"
    by (simp add: accepted_def header_world_def sample_world_def)
  have t0: "row_trace header_world header_values (JString ''session'') (header_records header_rows) 0 =
      [submission header_world header_values (JString ''session'') (header_records header_rows) 0,
       Stdout (scrobbled_report (JString ''Radiohead'') (JString ''Creep'')), Timeout 200]"
    using ok acc
    by (simp add: row_trace_def r header_values_def resolve_def js_or_def property_def)
  have t1: "row_trace header_world header_values (JString ''session'') (header_records header_rows) 1 =
      [Stderr (''Error: Could not determine artist and track from line 2'' @ newline)]"
    using b by (simp add: loop_body_eq)
  have len: "length (header_records header_rows) = 2"
    by (simp add: r)
  have u: "[0..<2] = [0, 1::nat]"
    by (simp add: upt_rec)
  have sub: "\<not> is_stderr (submission header_world header_values (JString ''session'')
        (header_records header_rows) 0)"
    by (simp add: submission_def split_beta is_stderr_def)
  have aut: "\<not> is_stderr (auth_request header_world header_values)"
    by (simp add: auth_request_def is_stderr_def)
  have rd: "fst (readInput header_world [''tracks.csv'']) = [ReadFile ''tracks.csv'']"
    by (simp add: readInput_def)
  have c: "filter is_stderr
         (fst (main header_world header_values [''tracks.csv'']))
       = [Stderr (''Error: Could not determine artist and track from line 2'' @ newline)]"
    unfolding main_loop [OF header_args] len u
    using t0 t1 sub aut by (simp add: rd is_stderr_def)
  from a b c show ?thesis by blast
qed

theorem line_number_off_in_header_mode_witness:
  "header_rows ! 2 = ['''', ''Roads'']
   \<and> \<not> truthy (fst (resolve (header header_values) (header_records header_rows ! 1)))
   \<and> filter is_stderr (fst (main header_world header_values [''tracks.csv'']))
       = [Stderr (''Error: Could not determine artist and track from line 2'' @ newline)]"
proof -
  have r: "header_rows ! 2 = ['''', ''Roads'']"
    by (simp add: header_rows_def)
  have "header_records header_rows ! 1 = Columns (zip (header_rows ! 0) (header_rows ! 2))"
    using line_number_off_in_header_mode by blast
  then have f: "\<not> truthy (fst (resolve (header header_values) (header_records header_rows ! 1)))"
    by (simp add: header_records_def header_rows_def header_values_def resolve_def js_or_def
        property_def)
  from r f line_number_off_in_header_mode show ?thesis by blast
qed

text \<open>
  Claim C7. A failed submission does not stop the loop: the submissions of a run are
  those of all rows that resolve, in order, whatever the service replies, and the
  counters at the end are the number of rows that succeed and the number of rows that do
  not. In a run over three resolving rows of which the second is rejected, all three
  rows are submitted and the summary reads "2 successful, 1 failed".
\<close>

theorem failure_isolation:
  "filter is_scrobble (fst (scrobble_loop w v sk rs 0 0 0)) =
       map (submission w v sk rs) (filter (\<lambda>i. resolved v (rs ! i)) [0..<length rs])
   \<and> snd (scrobble_loop w v sk rs 0 0 0) = (successes w v rs, failures w v rs)
   \<and> (\<not> help_flag v \<longrightarrow> credentials_given v \<longrightarrow> snd (getAuthToken w v) = Inr sk \<longrightarrow>
       snd (readInput w pos) = Inr csvData \<longrightarrow>
       csv_parse w csvData (delimiter v) (header v) = Inr rs \<longrightarrow>
         filter is_scrobble (fst (main w v pos)) =
           map (submission w v sk rs) (filter (\<lambda>i. resolved v (rs ! i)) [0..<length rs])
         \<and> last (fst (main w v pos)) = Stdout (summary (successes w v rs) (failures w v rs))
         \<and> snd (main w v pos) = Completed
         \<and> (length rs = 3 \<longrightarrow> resolved v (rs ! 0) \<longrightarrow> resolved v (rs ! 1) \<longrightarrow> resolved v (rs ! 2) \<longrightarrow>
            accepted (scrobble_reply w 0) \<longrightarrow> \<not> accepted (scrobble_reply w 1) \<longrightarrow>
            accepted (scrobble_reply w 2) \<longrightarrow>
              filter is_scrobble (fst (main w v pos)) =
                [submission w v sk rs 0, submission w v sk rs 1, submission w v sk rs 2]
              \<and> last (fst (main w v pos)) =
                Stdout (newline @ ''Scrobbling complete: 2 successful, 1 failed'' @ newline)))"
proof (intro conjI impI)
  show "filter is_scrobble (fst (scrobble_loop w v sk rs 0 0 0)) =
       map (submission w v sk rs) (filter (\<lambda>i. resolved v (rs ! i)) [0..<length rs])"
    by (simp add: scrobble_loop_eq loop_trace_scrobble)
  show "snd (scrobble_loop w v sk rs 0 0 0) = (successes w v rs, failures w v rs)"
    by (simp add: scrobble_loop_eq successes_def failures_def)
next
  assume a: "\<not> help_flag v" "credentials_given v" "snd (getAuthToken w v) = Inr sk"
    "snd (readInput w pos) = Inr csvData" "csv_parse w csvData (delimiter v) (header v) = Inr rs"
  show s: "filter is_scrobble (fst (main w v pos)) =
           map (submission w v sk rs) (filter (\<lambda>i. resolved v (rs ! i)) [0..<length rs])"
    by (rule scrobble_main_loop [OF a])
  show l: "last (fst (main w v pos)) = Stdout (summary (successes w v rs) (failures w v rs))"
    by (rule last_main_loop [OF a])
  show "snd (main w v pos) = Completed"
    by (simp add: main_loop [OF a])
  assume r: "length rs = 3" "resolved v (rs ! 0)" "resolved v (rs ! 1)" "resolved v (rs ! 2)"
    and ok: "accepted (scrobble_reply w 0)" "\<not> accepted (scrobble_reply w 1)"
      "accepted (scrobble_reply w 2)"
  show "filter is_scrobble (fst (main w v pos)) =
                [submission w v sk rs 0, submission w v sk rs 1, submission w v sk rs 2]"
    using r by (simp add: s upt_3)
  have sf: "successes w v rs = 2" "failures w v rs = 1"
    using r ok by (simp_all add: successes_def failures_def row_succeeds_def upt_3)
  show "last (fst (main w v pos)) =
                Stdout (newline @ ''Scrobbling complete: 2 successful, 1 failed'' @ newline)"
    unfolding l sf summary_2_1 by (rule refl)
qed

theorem failure_isolation_witness:
  "length sample_records = 3
   \<and> accepted (scrobble_reply sample_world 0) \<and> \<not> accepted (scrobble_reply sample_world 1)
   \<and> accepted (scrobble_reply sample_world 2)
   \<and> filter is_scrobble (fst (main sample_world sample_values [])) =
       [submission sample_world sample_values (JString ''session'') sample_records 0,
        submission sample_world sample_values (JString ''session'') sample_records 1,
        submission sample_world sample_values (JString ''session'') sample_records 2]
   \<and> last (fst (main sample_world sample_values [])) =
       Stdout (newline @ ''Scrobbling complete: 2 successful, 1 failed'' @ newline)"
proof -
  have r: "snd (readInput sample_world []) = Inr []" by (simp add: sample_read)
  from failure_isolation
    [of sample_world sample_values "JString ''session''" sample_records "[]" "[]"]
  have "filter is_scrobble (fst (main sample_world sample_values [])) =
       [submission sample_world sample_values (JString ''session'') sample_records 0,
        submission sample_world sample_values (JString ''session'') sample_records 1,
        submission sample_world sample_values (JString ''session'') sample_records 2]
   \<and> last (fst (main sample_world sample_values [])) =
       Stdout (newline @ ''Scrobbling complete: 2 successful, 1 failed'' @ newline)"
    using sample_args sample_auth r sample_parse sample_length sample_resolved sample_accepted
    by blast
  then show ?thesis
    using sample_length sample_accepted by simp
qed

text \<open>
  Claim C8. The run ends with \<^verbatim>\<open>exit(0)\<close> on \<^verbatim>\<open>--help\<close>, with \<^verbatim>\<open>exit(1)\<close> when a
  required option is missing, by falling off the end of the script (exit code 0) when
  authentication, reading and parsing succeed, whatever happens to the single rows, and,
  on a top-level failure, with \<^verbatim>\<open>exit(1)\<close> when debug mode is off and with the error
  left uncaught when debug mode is on.
\<close>

theorem exit_codes:
  "(help_flag v \<longrightarrow> snd (main w v pos) = Exit 0)
   \<and> (\<not> help_flag v \<longrightarrow> \<not> credentials_given v \<longrightarrow> snd (main w v pos) = Exit 1)
   \<and> (\<not> help_flag v \<longrightarrow> credentials_given v \<longrightarrow> top_level_failure w v pos = None \<longrightarrow>
        snd (main w v pos) = Completed \<and> exit_code (snd (main w v pos)) = Some 0)
   \<and> (\<not> help_flag v \<longrightarrow> credentials_given v \<longrightarrow> top_level_failure w v pos = Some m \<longrightarrow>
        snd (main w v pos) = (if debug v then Uncaught m else Exit 1))"
proof (intro conjI impI)
  assume "help_flag v"
  then show "snd (main w v pos) = Exit 0" by (simp add: main_help)
next
  assume h: "\<not> help_flag v" and c: "\<not> credentials_given v"
  then obtain param where "missing_required v = Some param"
    by (auto simp: credentials_given_iff)
  with h show "snd (main w v pos) = Exit 1" by (simp add: main_missing)
next
  assume h: "\<not> help_flag v" and c: "credentials_given v"
    and t: "top_level_failure w v pos = None"
  show "snd (main w v pos) = Completed"
  proof (cases rule: top_level_failure_cases [of w v pos])
    case (loop sk csvData rs)
    then show ?thesis by (simp add: main_try_ok [OF h c try_block_loop])
  qed (use t in simp_all)
  then show "exit_code (snd (main w v pos)) = Some 0" by simp
next
  assume h: "\<not> help_flag v" and c: "credentials_given v"
    and t: "top_level_failure w v pos = Some m"
  show "snd (main w v pos) = (if debug v then Uncaught m else Exit 1)"
  proof (cases rule: top_level_failure_cases [of w v pos])
    case (auth m')
    with t show ?thesis by (simp add: main_try_fails [OF h c try_block_auth_fails])
  next
    case (read sk m')
    with t show ?thesis by (simp add: main_try_fails [OF h c try_block_read_fails])
  next
    case (parse sk csvData m')
    with t show ?thesis by (simp add: main_try_fails [OF h c try_block_parse_fails])
  next
    case (loop sk csvData rs)
    with t show ?thesis by simp
  qed
qed

theorem exit_codes_witness:
  "snd (main sample_world (sample_values\<lparr>help_flag := True\<rparr>) []) = Exit 0
   \<and> snd (main sample_world (sample_values\<lparr>password := []\<rparr>) []) = Exit 1
   \<and> top_level_failure sample_world sample_values [] = None
   \<and> exit_code (snd (main sample_world sample_values [])) = Some 0
   \<and> top_level_failure (sample_world\<lparr>auth_reply := Rejected ''fetch failed''\<rparr>) sample_values []
       = Some ''fetch failed''
   \<and> snd (main (sample_world\<lparr>auth_reply := Rejected ''fetch failed''\<rparr>) sample_values []) = Exit 1
   \<and> snd (main (sample_world\<lparr>auth_reply := Rejected ''fetch failed''\<rparr>)
             (sample_values\<lparr>debug := True\<rparr>) []) = Uncaught ''fetch failed''"
proof -
  have ok: "top_level_failure sample_world sample_values [] = None"
    by (simp add: top_level_failure_def sample_auth sample_read sample_parse)
  have ko: "top_level_failure (sample_world\<lparr>auth_reply := Rejected ''fetch failed''\<rparr>) v []
       = Some ''fetch failed''" for v
    by (simp add: top_level_failure_def snd_getAuthToken)
  have 1: "snd (main sample_world (sample_values\<lparr>help_flag := True\<rparr>) []) = Exit 0"
    using exit_codes [of "sample_values\<lparr>help_flag := True\<rparr>" sample_world "[]"] by simp
  have 2: "snd (main sample_world (sample_values\<lparr>password := []\<rparr>) []) = Exit 1"
    using exit_codes [of "sample_values\<lparr>password := []\<rparr>" sample_world "[]"]
    by (simp add: sample_values_def credentials_given_def)
  have 3: "exit_code (snd (main sample_world sample_values [])) = Some 0"
    using exit_codes [of sample_values sample_world "[]"] sample_args ok by blast
  have 4: "snd (main (sample_world\<lparr>auth_reply := Rejected ''fetch failed''\<rparr>) sample_values [])
      = Exit 1"
    using exit_codes [of sample_values "sample_world\<lparr>auth_reply := Rejected ''fetch failed''\<rparr>"
        "[]" "''fetch failed''"] sample_args ko
    by (simp add: sample_values_def)
  have 5: "snd (main (sample_world\<lparr>auth_reply := Rejected ''fetch failed''\<rparr>)
             (sample_values\<lparr>debug := True\<rparr>) []) = Uncaught ''fetch failed''"
    using exit_codes [of "sample_values\<lparr>debug := True\<rparr>"
        "sample_world\<lparr>auth_reply := Rejected ''fetch failed''\<rparr>" "[]" "''fetch failed''"] ko
    by (simp add: sample_values_def credentials_given_def)
  from 1 2 ok 3 ko 4 5 show ?thesis by simp
qed

text \<open>
  Claim C9. The events of the loop are the events of its rows, one row after the other.
  A row that succeeds consists of the request, the report and a timer of 200
  milliseconds, in this order, so that the pause comes after the successful submission
  and before the next row; a row that fails (resolution or submission) sets no timer.
  A run that reaches the loop sets exactly one timer of 200 milliseconds per successful
  row, any other run sets none.
\<close>

theorem pause_only_after_success:
  "fst (scrobble_loop w v sk rs 0 0 0) = concat (map (row_trace w v sk rs) [0..<length rs])
   \<and> (row_succeeds w v rs i \<longrightarrow>
        (\<exists>s. fst (loop_body w v sk rs i sc ec) =
                [submission w v sk rs i, Stdout s, Timeout 200]))
   \<and> (\<not> row_succeeds w v rs i \<longrightarrow> filter is_timeout (fst (loop_body w v sk rs i sc ec)) = [])
   \<and> (\<not> help_flag v \<longrightarrow> credentials_given v \<longrightarrow> snd (getAuthToken w v) = Inr sk \<longrightarrow>
       snd (readInput w pos) = Inr csvData \<longrightarrow>
       csv_parse w csvData (delimiter v) (header v) = Inr rs \<longrightarrow>
         filter is_timeout (fst (main w v pos)) = replicate (successes w v rs) (Timeout 200))
   \<and> (help_flag v \<or> \<not> credentials_given v \<or> top_level_failure w v pos \<noteq> None \<longrightarrow>
         filter is_timeout (fst (main w v pos)) = [])"
proof (intro conjI impI)
  show "fst (scrobble_loop w v sk rs 0 0 0) = concat (map (row_trace w v sk rs) [0..<length rs])"
    by (simp add: scrobble_loop_eq)
next
  assume "row_succeeds w v rs i"
  then show "\<exists>s. fst (loop_body w v sk rs i sc ec) =
                [submission w v sk rs i, Stdout s, Timeout 200]"
    by (cases "resolve (header v) (rs ! i)")
       (simp add: loop_body_eq row_trace_def row_succeeds_def)
next
  assume "\<not> row_succeeds w v rs i"
  then show "filter is_timeout (fst (loop_body w v sk rs i sc ec)) = []"
    by (simp add: loop_body_eq row_trace_timeout)
next
  assume a: "\<not> help_flag v" "credentials_given v" "snd (getAuthToken w v) = Inr sk"
    "snd (readInput w pos) = Inr csvData" "csv_parse w csvData (delimiter v) (header v) = Inr rs"
  show "filter is_timeout (fst (main w v pos)) = replicate (successes w v rs) (Timeout 200)"
    by (rule timeout_main_loop [OF a])
next
  assume a: "help_flag v \<or> \<not> credentials_given v \<or> top_level_failure w v pos \<noteq> None"
  show "filter is_timeout (fst (main w v pos)) = []"
  proof (cases "help_flag v \<or> \<not> credentials_given v")
    case True
    then show ?thesis using main_no_requests [of v w pos] by blast
  next
    case False
    with a obtain m where "top_level_failure w v pos = Some m" by auto
    with False show ?thesis by (simp add: timeout_main_fails)
  qed
qed

theorem pause_only_after_success_witness:
  "row_succeeds sample_world sample_values sample_records 0
   \<and> (\<exists>s. fst (loop_body sample_world sample_values (JString ''session'') sample_records 0 0 0) =
        [submission sample_world sample_values (JString ''session'') sample_records 0,
         Stdout s, Timeout 200])
   \<and> \<not> row_succeeds sample_world sample_values sample_records 1
   \<and> filter is_timeout
       (fst (loop_body sample_world sample_values (JString ''session'') sample_records 1 1 0)) = []
   \<and> filter is_timeout (fst (main sample_world sample_values [])) = [Timeout 200, Timeout 200]
   \<and> filter is_timeout (fst (main sample_world (sample_values\<lparr>help_flag := True\<rparr>) [])) = []"
proof -
  have r: "snd (readInput sample_world []) = Inr []" by (simp add: sample_read)
  note t0 = pause_only_after_success
    [of sample_world sample_values "JString ''session''" sample_records 0 0 0 "[]" "[]"]
  note t1 = pause_only_after_success
    [of sample_world sample_values "JString ''session''" sample_records 1 1 0 "[]" "[]"]
  note t2 = pause_only_after_success
    [of sample_world "sample_values\<lparr>help_flag := True\<rparr>" "JString ''session''" sample_records 0 0 0
      "[]" "[]"]
  have a: "\<exists>s. fst (loop_body sample_world sample_values (JString ''session'') sample_records 0 0 0) =
        [submission sample_world sample_values (JString ''session'') sample_records 0,
         Stdout s, Timeout 200]"
    using t0 sample_rows(1) by blast
  have b: "filter is_timeout
       (fst (loop_body sample_world sample_values (JString ''session'') sample_records 1 1 0)) = []"
    using t1 sample_rows(2) by blast
  have "filter is_timeout (fst (main sample_world sample_values []))
      = replicate (successes sample_world sample_values sample_records) (Timeout 200)"
    using t0 sample_args sample_auth r sample_parse by blast
  then have c: "filter is_timeout (fst (main sample_world sample_values []))
      = [Timeout 200, Timeout 200]"
    by (simp add: sample_tallies numeral_2_eq_2)
  have d: "filter is_timeout (fst (main sample_world (sample_values\<lparr>help_flag := True\<rparr>) [])) = []"
    using t2 by simp
  from a b c d sample_rows show ?thesis by blast
qed



end
